theory Spec2Isabelle
  imports Complex_Main "HOL-Library.Sublist"
begin

section \<open>The AMI430 magnet power supply driver\<close>

text \<open>
  The driver (\<^verbatim>\<open>AMI430.py\<close>) talks to the instrument over a synchronous link:
  \<^verbatim>\<open>ask\<close> sends a query and returns the reply, \<^verbatim>\<open>write\<close> sends a command, and
  \<^verbatim>\<open>time.sleep\<close> lets time pass. The model keeps the whole conversation as a
  transcript of events. The instrument is any deterministic function from the
  transcript so far and the query to the reply, so it may change its answers after
  any command, any earlier query or any wait.
\<close>

subsection \<open>Data\<close>

text \<open>The keys of the \<^verbatim>\<open>ramping_state\<close> value mapping, in the order of their codes 1 to 10.\<close>

datatype ramp_state =
  Ramping | Holding | Paused | ManualUp | ManualDown | ZeroingCurrent
  | QuenchDetected | AtZeroCurrent | HeatingSwitch | CoolingSwitch

text \<open>\<open>Ask cmd reply\<close>: a query and the reply read; \<open>Sleep ms\<close>: a wait in milliseconds.\<close>

datatype event = Ask string string | Write string | Sleep nat

type_synonym transcript = "event list"

type_synonym instrument = "transcript \<Rightarrow> string \<Rightarrow> string"

text \<open>
  \<open>KeyError\<close>: a reply that a value mapping does not know. \<open>ValueError\<close>: a reply that
  \<^verbatim>\<open>float\<close> does not parse. \<open>OutOfRange\<close>: a value the validator refuses.
  \<open>OutOfFuel\<close>: a polling loop was still running after as many polls as the model
  was given; the Python loops have no such bound.
\<close>

datatype error = KeyError string | ValueError string | OutOfRange | OutOfFuel

type_synonym 'a io = "transcript \<Rightarrow> (error + 'a) \<times> transcript"

text \<open>The constructor arguments of \<^verbatim>\<open>AMI430.__init__\<close> that the driver keeps.\<close>

record config =
  coil_constant :: real
  current_rating :: real
  current_ramp_limit :: real
  persistent_switch :: bool

definition field_rating :: "config \<Rightarrow> real" where
  "field_rating cfg = coil_constant cfg * current_rating cfg"

subsection \<open>Sequencing\<close>

definition return_io :: "'a \<Rightarrow> 'a io" where
  "return_io x h = (Inr x, h)"

text \<open>Run \<open>m\<close>, then \<open>f\<close> on its value; an exception of \<open>m\<close> ends the run.\<close>

definition bind_io :: "'a io \<Rightarrow> ('a \<Rightarrow> 'b io) \<Rightarrow> 'b io" where
  "bind_io m f h = (case m h of (Inl e, h') \<Rightarrow> (Inl e, h') | (Inr x, h') \<Rightarrow> f x h')"

definition raise_io :: "error \<Rightarrow> 'a io" where
  "raise_io e h = (Inl e, h)"

subsection \<open>The instrument link\<close>

definition ask :: "instrument \<Rightarrow> string \<Rightarrow> string io" where
  "ask hw cmd h = (Inr (hw h cmd), h @ [Ask cmd (hw h cmd)])"

definition write_cmd :: "string \<Rightarrow> unit io" where
  "write_cmd cmd h = (Inr (), h @ [Write cmd])"

definition sleep :: "nat \<Rightarrow> unit io" where
  "sleep ms h = (Inr (), h @ [Sleep ms])"

text \<open>What a transcript holds: the commands written and the queries asked, in order.\<close>

fun writes :: "transcript \<Rightarrow> string list" where
  "writes [] = []"
| "writes (Write c # es) = c # writes es"
| "writes (_ # es) = writes es"

fun asks :: "transcript \<Rightarrow> string list" where
  "asks [] = []"
| "asks (Ask c _ # es) = c # asks es"
| "asks (_ # es) = asks es"

fun is_ask :: "event \<Rightarrow> bool" where
  "is_ask (Ask _ _) = True"
| "is_ask _ = False"

subsection \<open>Parameters with a value mapping\<close>

text \<open>
  The value mappings are those of \<^verbatim>\<open>__init__\<close>: \<^verbatim>\<open>{False: '0', True: '1'}\<close> for the
  three flags and \<^verbatim>\<open>'ramping': 1\<close> to \<^verbatim>\<open>'cooling switch': 10\<close> for the state. A reply
  is the text of the mapped value.
\<close>

definition flag_of_reply :: "string \<Rightarrow> bool option" where
  "flag_of_reply r = (if r = ''0'' then Some False else if r = ''1'' then Some True else None)"

definition reply_of_flag :: "bool \<Rightarrow> string" where
  "reply_of_flag b = (if b then ''1'' else ''0'')"

definition state_codes :: "(string \<times> ramp_state) list" where
  "state_codes =
    [(''1'', Ramping), (''2'', Holding), (''3'', Paused), (''4'', ManualUp),
     (''5'', ManualDown), (''6'', ZeroingCurrent), (''7'', QuenchDetected),
     (''8'', AtZeroCurrent), (''9'', HeatingSwitch), (''10'', CoolingSwitch)]"

definition state_of_reply :: "string \<Rightarrow> ramp_state option" where
  "state_of_reply r = map_of state_codes r"

fun reply_of_state :: "ramp_state \<Rightarrow> string" where
  "reply_of_state Ramping = ''1''"
| "reply_of_state Holding = ''2''"
| "reply_of_state Paused = ''3''"
| "reply_of_state ManualUp = ''4''"
| "reply_of_state ManualDown = ''5''"
| "reply_of_state ZeroingCurrent = ''6''"
| "reply_of_state QuenchDetected = ''7''"
| "reply_of_state AtZeroCurrent = ''8''"
| "reply_of_state HeatingSwitch = ''9''"
| "reply_of_state CoolingSwitch = ''10''"

text \<open>
  Modelled from the spec: the State Reader reads a fact from the instrument link and
  decodes it into a typed value, each time afresh. The parameter class that does
  this with the value mappings above is not among the source files. The
  specification does not say what a reply outside the mapping leads to; the model
  raises \<open>KeyError\<close> with the reply.
\<close>

definition get_mapped :: "(string \<Rightarrow> 'a option) \<Rightarrow> instrument \<Rightarrow> string \<Rightarrow> 'a io" where
  "get_mapped dec hw cmd =
     bind_io (ask hw cmd) (\<lambda>r. case dec r of None \<Rightarrow> raise_io (KeyError r) | Some v \<Rightarrow> return_io v)"

definition is_quenched :: "instrument \<Rightarrow> bool io" where
  "is_quenched hw = get_mapped flag_of_reply hw ''QU?''"

definition in_persistent_mode :: "instrument \<Rightarrow> bool io" where
  "in_persistent_mode hw = get_mapped flag_of_reply hw ''PERS?''"

definition persistent_switch_heater_enabled :: "instrument \<Rightarrow> bool io" where
  "persistent_switch_heater_enabled hw = get_mapped flag_of_reply hw ''PS?''"

definition ramping_state :: "instrument \<Rightarrow> ramp_state io" where
  "ramping_state hw = get_mapped state_of_reply hw ''STATE?''"

definition pause :: "unit io" where
  "pause = write_cmd ''PAUSE''"

definition ramp :: "unit io" where
  "ramp = write_cmd ''RAMP''"

subsection \<open>The safety gate\<close>

text \<open>
  \<^verbatim>\<open>_can_start_ramping\<close>. Python's \<^verbatim>\<open>and\<close> evaluates its right operand only when the left
  one is true, so \<^verbatim>\<open>PERS?\<close> is asked only when there is a persistent switch.
\<close>

definition can_start_ramping :: "config \<Rightarrow> instrument \<Rightarrow> bool io" where
  "can_start_ramping cfg hw =
     bind_io (is_quenched hw) (\<lambda>quenched.
       if quenched then return_io False
       else
         bind_io (if persistent_switch cfg then in_persistent_mode hw else return_io False)
           (\<lambda>blocked.
             if blocked then return_io False
             else
               bind_io (ramping_state hw) (\<lambda>state.
                 if state = Ramping then
                   (if \<not> persistent_switch cfg then return_io True
                    else
                      bind_io (persistent_switch_heater_enabled hw) (\<lambda>enabled.
                        if enabled then return_io True else return_io False))
                 else if state \<in> set [Holding, Paused, AtZeroCurrent] then return_io True
                 else return_io False)))"

text \<open>
  The decision table of the specification, over a snapshot of the four facts and the
  configuration flag, first match wins.
\<close>

record safety_status =
  quenched :: bool
  persistentMode :: bool
  heaterEnabled :: bool
  rampState :: ramp_state

definition canStartRamping :: "safety_status \<Rightarrow> bool \<Rightarrow> bool" where
  "canStartRamping s persistentSwitchPresent =
     (if quenched s then False
      else if persistentSwitchPresent \<and> persistentMode s then False
      else if rampState s = Ramping then (\<not> persistentSwitchPresent \<or> heaterEnabled s)
      else if rampState s \<in> {Holding, Paused, AtZeroCurrent} then True
      else False)"

text \<open>
  The instrument shows the snapshot \<open>s\<close> from the transcript \<open>h\<close> on: whatever is
  asked after \<open>h\<close>, the four queries are answered with the values of \<open>s\<close>.
\<close>

definition shows_status :: "instrument \<Rightarrow> transcript \<Rightarrow> safety_status \<Rightarrow> bool" where
  "shows_status hw h s \<longleftrightarrow>
     (\<forall>ext. list_all is_ask ext \<longrightarrow>
        hw (h @ ext) ''QU?'' = reply_of_flag (quenched s) \<and>
        hw (h @ ext) ''PERS?'' = reply_of_flag (persistentMode s) \<and>
        hw (h @ ext) ''PS?'' = reply_of_flag (heaterEnabled s) \<and>
        hw (h @ ext) ''STATE?'' = reply_of_state (rampState s))"

text \<open>An instrument that answers each query with a fixed reply, whatever happened before.\<close>

definition steady :: "safety_status \<Rightarrow> instrument" where
  "steady s h cmd =
     (if cmd = ''QU?'' then reply_of_flag (quenched s)
      else if cmd = ''PERS?'' then reply_of_flag (persistentMode s)
      else if cmd = ''PS?'' then reply_of_flag (heaterEnabled s)
      else if cmd = ''STATE?'' then reply_of_state (rampState s)
      else '''')"

subsection \<open>The heater sequencer\<close>

text \<open>
  The loop \<^verbatim>\<open>while self.ramping_state() == st: time.sleep(0.3)\<close>. The Python loop has no
  bound; the model polls at most \<open>fuel\<close> times and ends with \<open>OutOfFuel\<close> when the
  loop would poll once more.
\<close>

fun wait_while :: "nat \<Rightarrow> instrument \<Rightarrow> ramp_state \<Rightarrow> unit io" where
  "wait_while 0 hw st = raise_io OutOfFuel"
| "wait_while (Suc fuel) hw st =
     bind_io (ramping_state hw) (\<lambda>s.
       if s = st then bind_io (sleep 300) (\<lambda>_. wait_while fuel hw st)
       else return_io ())"

text \<open>
  \<^verbatim>\<open>_set_persistent_switch_heater\<close>. The function is registered as the \<^verbatim>\<open>set_cmd\<close> of the
  parameter \<^verbatim>\<open>persistent_switch_heater_enabled\<close>, whose value mapping is
  \<^verbatim>\<open>{False: '0', True: '1'}\<close>, so \<^verbatim>\<open>value\<close> is the mapped text. \<^verbatim>\<open>if value:\<close> tests a text,
  which Python takes as true unless it is empty.
\<close>

definition set_persistent_switch_heater :: "nat \<Rightarrow> instrument \<Rightarrow> string \<Rightarrow> unit io" where
  "set_persistent_switch_heater fuel hw val =
     (if val \<noteq> [] then
        bind_io (write_cmd ''PS 1'') (\<lambda>_.
        bind_io (sleep 500) (\<lambda>_.
        wait_while fuel hw HeatingSwitch))
      else
        bind_io (write_cmd ''PS 0'') (\<lambda>_.
        bind_io (sleep 500) (\<lambda>_.
        wait_while fuel hw CoolingSwitch)))"

text \<open>
  Modelled from the spec: the mechanism that exposes writable named settings is an
  external collaborator, and its code is not among the source files. This is the
  call \<^verbatim>\<open>persistent_switch_heater_enabled(v)\<close> with a value: the value goes through the
  value mapping of the registration, \<^verbatim>\<open>{False: '0', True: '1'}\<close>, and the mapped text
  is what the set function gets, as the other driver among the sources has its
  mapped values put into the command text (\<^verbatim>\<open>set_cmd='ver {}'\<close> with
  \<^verbatim>\<open>val_mapping={True: 1, False: 0}\<close>).
\<close>

definition persistent_switch_heater_enabled_set :: "nat \<Rightarrow> instrument \<Rightarrow> bool \<Rightarrow> unit io" where
  "persistent_switch_heater_enabled_set fuel hw v =
     set_persistent_switch_heater fuel hw (reply_of_flag v)"

subsection \<open>The two ramp operations\<close>

text \<open>
  The end of \<^verbatim>\<open>_set_field\<close>, from the wait after \<^verbatim>\<open>self.ramp()\<close> on: poll while the
  state is \<^verbatim>\<open>'ramping'\<close>, wait two seconds, read the state once more and pause when
  it is \<^verbatim>\<open>'holding'\<close>.
\<close>

definition ramp_monitor :: "nat \<Rightarrow> instrument \<Rightarrow> unit io" where
  "ramp_monitor fuel hw =
     bind_io (sleep 500) (\<lambda>_.
     bind_io (wait_while fuel hw Ramping) (\<lambda>_.
     bind_io (sleep 2000) (\<lambda>_.
     bind_io (ramping_state hw) (\<lambda>s.
       if s = Holding then pause else return_io ()))))"

text \<open>
  \<^verbatim>\<open>_set_field\<close>, the blocking operation. \<open>fmt\<close> is the text that \<^verbatim>\<open>'{}'.format\<close> gives for
  a number.
\<close>

definition set_field :: "nat \<Rightarrow> (real \<Rightarrow> string) \<Rightarrow> config \<Rightarrow> instrument \<Rightarrow> real \<Rightarrow> unit io" where
  "set_field fuel fmt cfg hw val =
     bind_io (can_start_ramping cfg hw) (\<lambda>ok.
       if ok then
         bind_io pause (\<lambda>_.
         bind_io (write_cmd (''CONF:FIELD:TARG '' @ fmt val)) (\<lambda>_.
         bind_io
           (if persistent_switch cfg then
              bind_io (persistent_switch_heater_enabled hw) (\<lambda>enabled.
                if \<not> enabled then persistent_switch_heater_enabled_set fuel hw True
                else return_io ())
            else return_io ()) (\<lambda>_.
         bind_io ramp (\<lambda>_.
         ramp_monitor fuel hw))))
       else return_io ())"

text \<open>\<^verbatim>\<open>_ramp_to\<close>, the non-blocking operation.\<close>

definition ramp_to :: "nat \<Rightarrow> (real \<Rightarrow> string) \<Rightarrow> config \<Rightarrow> instrument \<Rightarrow> real \<Rightarrow> unit io" where
  "ramp_to fuel fmt cfg hw val =
     bind_io (can_start_ramping cfg hw) (\<lambda>ok.
       if ok then
         bind_io pause (\<lambda>_.
         bind_io (write_cmd (''CONF:FIELD:TARG '' @ fmt val)) (\<lambda>_.
         bind_io
           (if persistent_switch cfg then
              bind_io (persistent_switch_heater_enabled hw) (\<lambda>enabled.
                if \<not> enabled then persistent_switch_heater_enabled_set fuel hw True
                else return_io ())
            else return_io ()) (\<lambda>_.
         ramp)))
       else return_io ())"

text \<open>
  Modelled from the spec: the bounds check in front of both operations. The driver
  registers them with the validator \<^verbatim>\<open>Numbers(-self._field_rating, self._field_rating)\<close>;
  the validator and the code that runs it before the operation are not among the
  source files. The specification has step 1 of \<open>beginRamp\<close> fail with \<open>OutOfRange\<close>
  unless \<open>|target| <= fieldRating\<close>.
\<close>

definition beginRamp ::
  "bool \<Rightarrow> nat \<Rightarrow> (real \<Rightarrow> string) \<Rightarrow> config \<Rightarrow> instrument \<Rightarrow> real \<Rightarrow> unit io" where
  "beginRamp blocking fuel fmt cfg hw target =
     (if \<bar>target\<bar> \<le> field_rating cfg then
        (if blocking then set_field fuel fmt cfg hw target
         else ramp_to fuel fmt cfg hw target)
      else raise_io OutOfRange)"

subsection \<open>The ramp rate\<close>

text \<open>\<^verbatim>\<open>s.split(',')[0]\<close>: the text before the first comma, all of \<open>s\<close> when it has none.\<close>

definition first_field :: "string \<Rightarrow> string" where
  "first_field s = takeWhile (\<lambda>c. c \<noteq> CHR '','') s"

text \<open>\<^verbatim>\<open>_get_ramp_rate\<close>; \<open>float\<close> is Python's \<^verbatim>\<open>float\<close> on text, \<open>None\<close> where it raises.\<close>

definition get_ramp_rate :: "(string \<Rightarrow> real option) \<Rightarrow> instrument \<Rightarrow> real io" where
  "get_ramp_rate float hw =
     bind_io (ask hw ''RAMP:RATE:FIELD:1?'') (\<lambda>results.
       case float (first_field results) of
         None \<Rightarrow> raise_io (ValueError (first_field results))
       | Some x \<Rightarrow> return_io x)"

text \<open>\<^verbatim>\<open>_set_ramp_rate\<close>: the two placeholders of the format string stand side by side.\<close>

definition set_ramp_rate :: "(real \<Rightarrow> string) \<Rightarrow> config \<Rightarrow> real \<Rightarrow> unit io" where
  "set_ramp_rate fmt cfg rate =
     write_cmd (''CONF:RAMP:RATE:FIELD 1,'' @ fmt rate @ fmt (field_rating cfg))"

subsection \<open>Transcripts of the polling loops\<close>

text \<open>\<open>k\<close> polls that each read the state \<open>st\<close> and then waited.\<close>

fun polls :: "nat \<Rightarrow> ramp_state \<Rightarrow> transcript" where
  "polls 0 st = []"
| "polls (Suc k) st = [Ask ''STATE?'' (reply_of_state st), Sleep 300] @ polls k st"

text \<open>The reply to the poll number \<open>k\<close> (from 0) of a loop started at \<open>h\<close>, when every
  poll before it read \<open>st\<close>.\<close>

definition poll_reply :: "instrument \<Rightarrow> ramp_state \<Rightarrow> transcript \<Rightarrow> nat \<Rightarrow> string" where
  "poll_reply hw st h k = hw (h @ polls k st) ''STATE?''"

text \<open>The polls that read the replies \<open>rs\<close>, each followed by its wait.\<close>

fun polled :: "string list \<Rightarrow> transcript" where
  "polled [] = []"
| "polled (r # rs) = [Ask ''STATE?'' r, Sleep 300] @ polled rs"

subsection \<open>Example configurations and instruments\<close>

text \<open>A magnet with a persistent switch and a field rating of 1 T, and one without a switch.\<close>

definition magnet :: config where
  "magnet = \<lparr>coil_constant = 1 / 10, current_rating = 10, current_ramp_limit = 3 / 50,
     persistent_switch = True\<rparr>"

definition bare_magnet :: config where
  "bare_magnet = magnet\<lparr>persistent_switch := False\<rparr>"

text \<open>Holding with the heater off, as in scenario B of the specification.\<close>

definition holding_cold :: safety_status where
  "holding_cold = \<lparr>quenched = False, persistentMode = False, heaterEnabled = False,
     rampState = Holding\<rparr>"

definition holding_warm :: safety_status where
  "holding_warm = holding_cold\<lparr>heaterEnabled := True\<rparr>"

text \<open>Quenched.\<close>

definition quenched_status :: safety_status where
  "quenched_status = holding_cold\<lparr>quenched := True\<rparr>"

text \<open>
  Decimal text of a natural number, and the text Python gives for a float that is a
  multiple of a tenth: \<^verbatim>\<open>'{}'.format(0.4)\<close> is \<^verbatim>\<open>'0.4'\<close> and \<^verbatim>\<open>'{}'.format(1.0)\<close> is \<^verbatim>\<open>'1.0'\<close>.
\<close>

fun str_nat :: "nat \<Rightarrow> string" where
  "str_nat n =
     (if n < 10 then [''0123456789'' ! n]
      else str_nat (n div 10) @ [''0123456789'' ! (n mod 10)])"

declare str_nat.simps [simp del]

definition fmt_tenths :: "real \<Rightarrow> string" where
  "fmt_tenths x =
     (let n = nat \<lfloor>\<bar>x\<bar> * 10\<rfloor> in
      (if x < 0 then ''-'' else '''') @ str_nat (n div 10) @ ''.'' @ str_nat (n mod 10))"

text \<open>
  An instrument with a script: the replies to \<^verbatim>\<open>STATE?\<close> follow the list \<open>trace\<close>, one
  entry per query, and stay at the state of \<open>s\<close> once the list is used up; the reply
  to \<^verbatim>\<open>PS?\<close> follows the last heater command written, and is the flag of \<open>s\<close> before
  the first; the other replies are those of \<open>s\<close>.
\<close>

definition heater_now :: "safety_status \<Rightarrow> transcript \<Rightarrow> bool" where
  "heater_now s h =
     (case filter (\<lambda>c. c = ''PS 0'' \<or> c = ''PS 1'') (writes h) of
        [] \<Rightarrow> heaterEnabled s
      | c # cs \<Rightarrow> last (c # cs) = ''PS 1'')"

definition scripted :: "safety_status \<Rightarrow> ramp_state list \<Rightarrow> instrument" where
  "scripted s trace h cmd =
     (if cmd = ''STATE?'' then
        (let n = length (filter (\<lambda>c. c = ''STATE?'') (asks h)) in
         reply_of_state (if n < length trace then trace ! n else rampState s))
      else if cmd = ''PS?'' then reply_of_flag (heater_now s h)
      else steady s h cmd)"

text \<open>A heater transition that never ends, and a quench seen while ramping.\<close>

definition stuck_heating :: safety_status where
  "stuck_heating = holding_cold\<lparr>rampState := HeatingSwitch\<rparr>"

definition quench_detected :: safety_status where
  "quench_detected = holding_cold\<lparr>rampState := QuenchDetected\<rparr>"

text \<open>
  Python's \<^verbatim>\<open>float\<close> on plain decimal text: digits, or digits, a point and digits. It
  is \<open>None\<close> on text with a second point, where \<^verbatim>\<open>float\<close> raises \<^verbatim>\<open>ValueError\<close>; signs,
  exponents and blanks are not modelled.
\<close>

definition nat_of_digits :: "string \<Rightarrow> nat option" where
  "nat_of_digits s =
     (if s \<noteq> [] \<and> list_all (\<lambda>c. c \<in> set ''0123456789'') s
      then Some (foldl (\<lambda>a c. 10 * a + (of_char c - 48)) 0 s) else None)"

definition float_plain :: "string \<Rightarrow> real option" where
  "float_plain s =
     (let whole = takeWhile (\<lambda>c. c \<noteq> CHR ''.'') s; rest = dropWhile (\<lambda>c. c \<noteq> CHR ''.'') s in
      if rest = [] then map_option real (nat_of_digits whole)
      else (case (nat_of_digits whole, nat_of_digits (tl rest)) of
              (Some a, Some b) \<Rightarrow> Some (real a + real b / 10 ^ length (tl rest))
            | _ \<Rightarrow> None))"

text \<open>
  An instrument that keeps the argument text of the last ramp rate command and gives
  it back as the reply to the ramp rate query.
\<close>

definition rate_store :: instrument where
  "rate_store h cmd =
     (if cmd = ''RAMP:RATE:FIELD:1?'' then
        (case filter (\<lambda>c. take (length ''CONF:RAMP:RATE:FIELD 1,'') c = ''CONF:RAMP:RATE:FIELD 1,'')
                (writes h) of
           [] \<Rightarrow> ''''
         | c # cs \<Rightarrow> drop (length ''CONF:RAMP:RATE:FIELD 1,'') (last (c # cs)))
      else '''')"

text \<open>The switch cooling down after the heater was on.\<close>

definition cooling_down :: safety_status where
  "cooling_down = holding_warm\<lparr>rampState := CoolingSwitch\<rparr>"

section \<open>Properties\<close>

subsection \<open>Decoding\<close>

lemma flag_of_reply_of_flag: "flag_of_reply (reply_of_flag b) = Some b"
  by (simp add: flag_of_reply_def reply_of_flag_def)

lemma state_of_reply_of_state: "state_of_reply (reply_of_state s) = Some s"
  by (cases s) (simp_all add: state_of_reply_def state_codes_def)

lemma shows_status_steady: "shows_status (steady s) h s"
  by (simp add: shows_status_def steady_def)

lemma get_mapped_reply:
  "dec (hw h cmd) = Some v \<Longrightarrow> get_mapped dec hw cmd h = (Inr v, h @ [Ask cmd (hw h cmd)])"
  by (simp add: get_mapped_def bind_io_def ask_def return_io_def)

lemma get_mapped_unknown:
  "dec (hw h cmd) = None \<Longrightarrow>
     get_mapped dec hw cmd h = (Inl (KeyError (hw h cmd)), h @ [Ask cmd (hw h cmd)])"
  by (simp add: get_mapped_def bind_io_def ask_def raise_io_def)

lemma writes_append: "writes (xs @ ys) = writes xs @ writes ys"
  by (induction xs rule: writes.induct) simp_all

lemma asks_append: "asks (xs @ ys) = asks xs @ asks ys"
  by (induction xs rule: asks.induct) simp_all

subsection \<open>Reading a snapshot\<close>

lemma shows_status_later:
  assumes "shows_status hw h s" and "list_all is_ask ext"
  shows "hw (h @ ext) ''QU?'' = reply_of_flag (quenched s)"
    and "hw (h @ ext) ''PERS?'' = reply_of_flag (persistentMode s)"
    and "hw (h @ ext) ''PS?'' = reply_of_flag (heaterEnabled s)"
    and "hw (h @ ext) ''STATE?'' = reply_of_state (rampState s)"
  using assms by (simp_all add: shows_status_def)

lemma read_quenched:
  "shows_status hw h s \<Longrightarrow> list_all is_ask ext \<Longrightarrow>
     is_quenched hw (h @ ext) =
       (Inr (quenched s), h @ ext @ [Ask ''QU?'' (reply_of_flag (quenched s))])"
  using get_mapped_reply [of flag_of_reply hw "h @ ext" "''QU?''" "quenched s"]
  by (simp add: is_quenched_def shows_status_later flag_of_reply_of_flag)

lemma read_persistent_mode:
  "shows_status hw h s \<Longrightarrow> list_all is_ask ext \<Longrightarrow>
     in_persistent_mode hw (h @ ext) =
       (Inr (persistentMode s), h @ ext @ [Ask ''PERS?'' (reply_of_flag (persistentMode s))])"
  using get_mapped_reply [of flag_of_reply hw "h @ ext" "''PERS?''" "persistentMode s"]
  by (simp add: in_persistent_mode_def shows_status_later flag_of_reply_of_flag)

lemma read_heater:
  "shows_status hw h s \<Longrightarrow> list_all is_ask ext \<Longrightarrow>
     persistent_switch_heater_enabled hw (h @ ext) =
       (Inr (heaterEnabled s), h @ ext @ [Ask ''PS?'' (reply_of_flag (heaterEnabled s))])"
  using get_mapped_reply [of flag_of_reply hw "h @ ext" "''PS?''" "heaterEnabled s"]
  by (simp add: persistent_switch_heater_enabled_def shows_status_later flag_of_reply_of_flag)

lemma read_state:
  "shows_status hw h s \<Longrightarrow> list_all is_ask ext \<Longrightarrow>
     ramping_state hw (h @ ext) =
       (Inr (rampState s), h @ ext @ [Ask ''STATE?'' (reply_of_state (rampState s))])"
  using get_mapped_reply [of state_of_reply hw "h @ ext" "''STATE?''" "rampState s"]
  by (simp add: ramping_state_def shows_status_later state_of_reply_of_state)

lemmas read_status = read_quenched read_persistent_mode read_heater read_state

lemma writes_asks_only: "list_all is_ask ext \<Longrightarrow> writes ext = []"
  by (induction ext rule: writes.induct) simp_all

text \<open>On a snapshot the gate only asks, and its value is the decision table's.\<close>

lemma gate_on_status:
  assumes "shows_status hw h s"
  shows "\<exists>ext. list_all is_ask ext \<and>
    can_start_ramping cfg hw h = (Inr (canStartRamping s (persistent_switch cfg)), h @ ext)"
proof -
  note rd = read_status [OF assms, of "[]", simplified] read_status [OF assms]
  show ?thesis
    by (simp add: can_start_ramping_def canStartRamping_def bind_io_def return_io_def rd)
qed

subsection \<open>The safety gate is the decision table\<close>

text \<open>
  Claim C1. Whenever the instrument shows a snapshot (quenched, persistentMode,
  heaterEnabled, rampState) while the gate runs, \<^verbatim>\<open>_can_start_ramping\<close> returns without
  an exception the value of the specification's decision table on that snapshot and
  on the persistent-switch flag of the configuration, first match wins: false when
  quenched; else false when a switch is present and the magnet is in persistent
  mode; else, when ramping, true iff there is no switch or the heater is enabled;
  else true for holding, paused and at zero current; else false. It writes nothing
  to the instrument.
\<close>

theorem can_start_ramping_decision_table:
  assumes "shows_status hw h s"
  shows "fst (can_start_ramping cfg hw h) = Inr (canStartRamping s (persistent_switch cfg)) \<and>
     writes (snd (can_start_ramping cfg hw h)) = writes h \<and>
     canStartRamping s (persistent_switch cfg) =
       (if quenched s then False
        else if persistent_switch cfg \<and> persistentMode s then False
        else if rampState s = Ramping then (\<not> persistent_switch cfg \<or> heaterEnabled s)
        else if rampState s \<in> {Holding, Paused, AtZeroCurrent} then True
        else (case rampState s of
                ManualUp \<Rightarrow> False | ManualDown \<Rightarrow> False | ZeroingCurrent \<Rightarrow> False
              | QuenchDetected \<Rightarrow> False | HeatingSwitch \<Rightarrow> False | CoolingSwitch \<Rightarrow> False
              | _ \<Rightarrow> True))"
proof -
  from gate_on_status [OF assms] obtain ext where e: "list_all is_ask ext"
    and g: "can_start_ramping cfg hw h = (Inr (canStartRamping s (persistent_switch cfg)), h @ ext)"
    by blast
  have "writes ext = []" using e by (rule writes_asks_only)
  with g have "fst (can_start_ramping cfg hw h) = Inr (canStartRamping s (persistent_switch cfg))"
    and "writes (snd (can_start_ramping cfg hw h)) = writes h"
    by (simp_all add: writes_append)
  moreover have "canStartRamping s (persistent_switch cfg) =
       (if quenched s then False
        else if persistent_switch cfg \<and> persistentMode s then False
        else if rampState s = Ramping then (\<not> persistent_switch cfg \<or> heaterEnabled s)
        else if rampState s \<in> {Holding, Paused, AtZeroCurrent} then True
        else (case rampState s of
                ManualUp \<Rightarrow> False | ManualDown \<Rightarrow> False | ZeroingCurrent \<Rightarrow> False
              | QuenchDetected \<Rightarrow> False | HeatingSwitch \<Rightarrow> False | CoolingSwitch \<Rightarrow> False
              | _ \<Rightarrow> True))"
    by (cases "rampState s") (simp_all add: canStartRamping_def)
  ultimately show ?thesis by blast
qed

theorem can_start_ramping_decision_table_witness:
  "shows_status (steady holding_cold) [] holding_cold \<and>
   fst (can_start_ramping magnet (steady holding_cold) []) = Inr True \<and>
   writes (snd (can_start_ramping magnet (steady holding_cold) [])) = []"
  using can_start_ramping_decision_table
    [where hw = "steady holding_cold" and h = "[]" and s = holding_cold and cfg = magnet]
  by (simp add: shows_status_steady canStartRamping_def holding_cold_def magnet_def)

subsection \<open>A blocked ramp does nothing\<close>

lemma get_mapped_run:
  "get_mapped dec hw cmd h =
     ((case dec (hw h cmd) of None \<Rightarrow> Inl (KeyError (hw h cmd)) | Some v \<Rightarrow> Inr v),
      h @ [Ask cmd (hw h cmd)])"
  by (simp add: get_mapped_def bind_io_def ask_def return_io_def raise_io_def split: option.splits)

lemmas reads_run = is_quenched_def in_persistent_mode_def persistent_switch_heater_enabled_def
  ramping_state_def get_mapped_run

text \<open>Whatever the instrument answers, the gate only asks.\<close>

lemma gate_only_asks:
  "\<exists>ext. list_all is_ask ext \<and> snd (can_start_ramping cfg hw h) = h @ ext"
  by (simp add: can_start_ramping_def bind_io_def return_io_def reads_run split: option.splits)

lemma gate_writes_nothing: "writes (snd (can_start_ramping cfg hw h)) = writes h"
  using gate_only_asks [of cfg hw h] by (auto simp: writes_append writes_asks_only)

text \<open>
  Claim C2. For every target, every instrument and every transcript so far at which
  the safety gate evaluates to false, both \<^verbatim>\<open>_set_field\<close> and \<^verbatim>\<open>_ramp_to\<close> return without an
  exception right after the gate's queries: the transcript is the one the gate left,
  and the commands written are those written before the call. No pause, no target,
  no heater command and no ramp start is sent.
\<close>

theorem blocked_ramp_is_silent:
  assumes "fst (can_start_ramping cfg hw h) = Inr False"
  shows "set_field fuel fmt cfg hw target h = (Inr (), snd (can_start_ramping cfg hw h)) \<and>
     ramp_to fuel fmt cfg hw target h = (Inr (), snd (can_start_ramping cfg hw h)) \<and>
     writes (snd (set_field fuel fmt cfg hw target h)) = writes h \<and>
     writes (snd (ramp_to fuel fmt cfg hw target h)) = writes h"
proof -
  obtain r g where g: "can_start_ramping cfg hw h = (r, g)"
    by (cases "can_start_ramping cfg hw h")
  with assms have r: "r = Inr False" by simp
  have s: "set_field fuel fmt cfg hw target h = (Inr (), g)"
    by (simp add: set_field_def bind_io_def g r return_io_def)
  have t: "ramp_to fuel fmt cfg hw target h = (Inr (), g)"
    by (simp add: ramp_to_def bind_io_def g r return_io_def)
  from gate_writes_nothing [of cfg hw h] g have "writes g = writes h" by simp
  with s t g show ?thesis by simp
qed

lemma gate_quenched:
  "can_start_ramping magnet (steady quenched_status) [] = (Inr False, [Ask ''QU?'' ''1''])"
  by (simp add: can_start_ramping_def bind_io_def return_io_def reads_run steady_def
      quenched_status_def holding_cold_def reply_of_flag_def flag_of_reply_def)

theorem blocked_ramp_is_silent_witness:
  "fst (can_start_ramping magnet (steady quenched_status) []) = Inr False \<and>
   set_field 3 fmt_tenths magnet (steady quenched_status) (2 / 5) [] =
     (Inr (), [Ask ''QU?'' ''1'']) \<and>
   ramp_to 3 fmt_tenths magnet (steady quenched_status) (2 / 5) [] =
     (Inr (), [Ask ''QU?'' ''1'']) \<and>
   writes (snd (set_field 3 fmt_tenths magnet (steady quenched_status) (2 / 5) [])) = [] \<and>
   writes (snd (ramp_to 3 fmt_tenths magnet (steady quenched_status) (2 / 5) [])) = []"
  using blocked_ramp_is_silent [where cfg = magnet and hw = "steady quenched_status" and h = "[]"
      and fuel = 3 and fmt = fmt_tenths and target = "2 / 5"]
  by (simp add: gate_quenched)

subsection \<open>Transcripts of the ramp operations\<close>

lemma wait_while_extends: "prefix h (snd (wait_while fuel hw st h))"
proof (induction fuel arbitrary: h)
  case 0
  show ?case by (simp add: raise_io_def)
next
  case (Suc fuel)
  have "prefix (h @ [Ask ''STATE?'' (hw h ''STATE?''), Sleep 300])
          (snd (wait_while fuel hw st (h @ [Ask ''STATE?'' (hw h ''STATE?''), Sleep 300])))"
    by (rule Suc.IH)
  then have "prefix h (snd (wait_while fuel hw st (h @ [Ask ''STATE?'' (hw h ''STATE?''), Sleep 300])))"
    using append_prefixD by blast
  then show ?case
    by (simp add: bind_io_def reads_run sleep_def return_io_def split: option.splits)
qed

lemma ramp_monitor_extends: "prefix h (snd (ramp_monitor fuel hw h))"
proof -
  have "prefix (h @ [Sleep 500]) (snd (wait_while fuel hw Ramping (h @ [Sleep 500])))"
    by (rule wait_while_extends)
  then obtain ext where e: "snd (wait_while fuel hw Ramping (h @ [Sleep 500])) = h @ [Sleep 500] @ ext"
    by (auto simp: prefix_def)
  show ?thesis
    by (cases "wait_while fuel hw Ramping (h @ [Sleep 500])")
      (use e in \<open>auto simp add: ramp_monitor_def bind_io_def sleep_def reads_run return_io_def pause_def
        write_cmd_def split: option.splits sum.splits\<close>)
qed

lemma set_field_after_ramp_to:
  "set_field fuel fmt cfg hw target h =
     (case ramp_to fuel fmt cfg hw target h of
        (Inl e, h1) \<Rightarrow> (Inl e, h1)
      | (Inr u, h1) \<Rightarrow>
          if fst (can_start_ramping cfg hw h) = Inr True then ramp_monitor fuel hw h1
          else (Inr (), h1))"
proof -
  obtain r g where g: "can_start_ramping cfg hw h = (r, g)"
    by (cases "can_start_ramping cfg hw h")
  show ?thesis
  proof (cases r)
    case (Inl e)
    then show ?thesis by (simp add: set_field_def ramp_to_def bind_io_def g)
  next
    case (Inr ok)
    show ?thesis
    proof (cases ok)
      case False
      with Inr show ?thesis by (simp add: set_field_def ramp_to_def bind_io_def g return_io_def)
    next
      case True
      with Inr show ?thesis
        by (simp add: set_field_def ramp_to_def bind_io_def g return_io_def ramp_def write_cmd_def
            pause_def split: prod.splits sum.splits)
    qed
  qed
qed

lemma flag_reply_False: "flag_of_reply r = Some False \<longleftrightarrow> r = ''0''"
  by (simp add: flag_of_reply_def)

lemma flag_reply_True: "flag_of_reply r = Some True \<longleftrightarrow> r = ''1''"
  by (auto simp add: flag_of_reply_def)

lemma wait_while_writes: "writes (snd (wait_while fuel hw st h)) = writes h"
proof (induction fuel arbitrary: h)
  case 0
  show ?case by (simp add: raise_io_def)
next
  case (Suc fuel)
  have "writes (snd (wait_while fuel hw st (h @ [Ask ''STATE?'' (hw h ''STATE?''), Sleep 300]))) =
      writes (h @ [Ask ''STATE?'' (hw h ''STATE?''), Sleep 300])"
    by (rule Suc.IH)
  then show ?case
    by (simp add: bind_io_def reads_run sleep_def return_io_def raise_io_def writes_append
        split: option.splits)
qed

lemma heater_writes:
  "writes (snd (set_persistent_switch_heater fuel hw val h)) =
     writes h @ [if val \<noteq> [] then ''PS 1'' else ''PS 0'']"
  by (simp add: set_persistent_switch_heater_def bind_io_def write_cmd_def sleep_def
      wait_while_writes writes_append)

lemma heater_run:
  "set_persistent_switch_heater fuel hw val h =
     wait_while fuel hw (if val \<noteq> [] then HeatingSwitch else CoolingSwitch)
       (h @ [Write (if val \<noteq> [] then ''PS 1'' else ''PS 0''), Sleep 500])"
  by (simp add: set_persistent_switch_heater_def bind_io_def write_cmd_def sleep_def)

lemma enabled_set_run:
  "persistent_switch_heater_enabled_set fuel hw v h =
     wait_while fuel hw HeatingSwitch (h @ [Write ''PS 1'', Sleep 500])"
  by (simp add: persistent_switch_heater_enabled_set_def heater_run reply_of_flag_def)

lemma enabled_set_writes:
  "writes (snd (persistent_switch_heater_enabled_set fuel hw v h)) = writes h @ [''PS 1'']"
  by (simp add: enabled_set_run wait_while_writes writes_append)

lemma ramp_monitor_writes:
  "writes (snd (ramp_monitor fuel hw h)) = writes h \<or>
   writes (snd (ramp_monitor fuel hw h)) = writes h @ [''PAUSE'']"
proof -
  have w: "writes (snd (wait_while fuel hw Ramping (h @ [Sleep 500]))) = writes h"
    using wait_while_writes [of fuel hw Ramping "h @ [Sleep 500]"] by (simp add: writes_append)
  show ?thesis
    by (cases "wait_while fuel hw Ramping (h @ [Sleep 500])")
      (use w in \<open>auto simp add: ramp_monitor_def bind_io_def sleep_def reads_run return_io_def
        pause_def write_cmd_def writes_append split: option.splits sum.splits\<close>)
qed

lemma ramp_to_open:
  assumes g: "can_start_ramping cfg hw h = (Inr True, g)"
  shows "ramp_to fuel fmt cfg hw target h =
    (let h2 = g @ [Write ''PAUSE'', Write (''CONF:FIELD:TARG '' @ fmt target)];
         h3 = h2 @ [Ask ''PS?'' (hw h2 ''PS?'')]
     in if \<not> persistent_switch cfg then (Inr (), h2 @ [Write ''RAMP''])
        else if hw h2 ''PS?'' = ''1'' then (Inr (), h3 @ [Write ''RAMP''])
        else if hw h2 ''PS?'' = ''0'' then
          (case persistent_switch_heater_enabled_set fuel hw True h3 of
             (Inl e, h4) \<Rightarrow> (Inl e, h4)
           | (Inr u, h4) \<Rightarrow> (Inr (), h4 @ [Write ''RAMP'']))
        else (Inl (KeyError (hw h2 ''PS?'')), h3))"
  by (simp add: ramp_to_def bind_io_def g return_io_def ramp_def write_cmd_def pause_def reads_run
      Let_def flag_of_reply_def raise_io_def split: prod.splits sum.splits)

lemma ramp_to_writes:
  assumes "fst (can_start_ramping cfg hw h) = Inr True"
  shows "prefix (writes (snd (ramp_to fuel fmt cfg hw target h)))
      (writes h @ [''PAUSE'', ''CONF:FIELD:TARG '' @ fmt target] @
        (if persistent_switch cfg \<and>
            hw (snd (can_start_ramping cfg hw h) @
              [Write ''PAUSE'', Write (''CONF:FIELD:TARG '' @ fmt target)]) ''PS?'' = ''0''
         then [''PS 1''] else []) @ [''RAMP''])"
    and "fst (ramp_to fuel fmt cfg hw target h) = Inr () \<Longrightarrow>
      writes (snd (ramp_to fuel fmt cfg hw target h)) =
      writes h @ [''PAUSE'', ''CONF:FIELD:TARG '' @ fmt target] @
        (if persistent_switch cfg \<and>
            hw (snd (can_start_ramping cfg hw h) @
              [Write ''PAUSE'', Write (''CONF:FIELD:TARG '' @ fmt target)]) ''PS?'' = ''0''
         then [''PS 1''] else []) @ [''RAMP'']"
proof -
  obtain g where g: "can_start_ramping cfg hw h = (Inr True, g)"
    using assms by (cases "can_start_ramping cfg hw h") simp
  have wg: "writes g = writes h" using gate_writes_nothing [of cfg hw h] g by simp
  let ?h2 = "g @ [Write ''PAUSE'', Write (''CONF:FIELD:TARG '' @ fmt target)]"
  let ?h3 = "?h2 @ [Ask ''PS?'' (hw ?h2 ''PS?'')]"
  have hw: "writes (snd (persistent_switch_heater_enabled_set fuel hw True ?h3)) =
      writes h @ [''PAUSE'', ''CONF:FIELD:TARG '' @ fmt target, ''PS 1'']"
    by (simp add: enabled_set_writes writes_append wg)
  show "prefix (writes (snd (ramp_to fuel fmt cfg hw target h)))
      (writes h @ [''PAUSE'', ''CONF:FIELD:TARG '' @ fmt target] @
        (if persistent_switch cfg \<and>
            hw (snd (can_start_ramping cfg hw h) @
              [Write ''PAUSE'', Write (''CONF:FIELD:TARG '' @ fmt target)]) ''PS?'' = ''0''
         then [''PS 1''] else []) @ [''RAMP''])"
    using hw
    by (cases "persistent_switch_heater_enabled_set fuel hw True ?h3")
      (auto simp add: ramp_to_open [OF g] g Let_def writes_append wg split: sum.splits)
  show "writes (snd (ramp_to fuel fmt cfg hw target h)) =
      writes h @ [''PAUSE'', ''CONF:FIELD:TARG '' @ fmt target] @
        (if persistent_switch cfg \<and>
            hw (snd (can_start_ramping cfg hw h) @
              [Write ''PAUSE'', Write (''CONF:FIELD:TARG '' @ fmt target)]) ''PS?'' = ''0''
         then [''PS 1''] else []) @ [''RAMP'']"
    if "fst (ramp_to fuel fmt cfg hw target h) = Inr ()"
    using hw that
    by (cases "persistent_switch_heater_enabled_set fuel hw True ?h3")
      (auto simp add: ramp_to_open [OF g] g Let_def writes_append wg split: sum.splits)
qed

subsection \<open>Running the model on an example\<close>

lemma wait_while_unfold:
  "0 < fuel \<Longrightarrow> wait_while fuel hw st =
     bind_io (ramping_state hw) (\<lambda>s.
       if s = st then bind_io (sleep 300) (\<lambda>_. wait_while (fuel - 1) hw st)
       else return_io ())"
  by (cases fuel) (simp_all cong: if_cong)

lemmas run_defs = can_start_ramping_def ramp_to_def set_field_def ramp_monitor_def
  set_persistent_switch_heater_def persistent_switch_heater_enabled_set_def bind_io_def
  return_io_def raise_io_def reads_run
  write_cmd_def sleep_def pause_def ramp_def wait_while_unfold

lemmas fixture_defs = scripted_def steady_def heater_now_def holding_cold_def holding_warm_def
  quenched_status_def magnet_def bare_magnet_def reply_of_flag_def flag_of_reply_def
  state_of_reply_def state_codes_def fmt_tenths_def str_nat.simps

subsection \<open>The commands of a ramp, in order\<close>

lemma ramp_writes_in_order:
  assumes "fst (can_start_ramping cfg hw h) = Inr True"
  shows "let target_cmd = ''CONF:FIELD:TARG '' @ fmt target;
             h2 = snd (can_start_ramping cfg hw h) @ [Write ''PAUSE'', Write target_cmd];
             expected = writes h @ [''PAUSE'', target_cmd] @
               (if persistent_switch cfg \<and> hw h2 ''PS?'' = ''0'' then [''PS 1''] else []) @
               [''RAMP'']
         in prefix (writes (snd (ramp_to fuel fmt cfg hw target h))) expected \<and>
            (fst (ramp_to fuel fmt cfg hw target h) = Inr () \<longrightarrow>
               writes (snd (ramp_to fuel fmt cfg hw target h)) = expected) \<and>
            prefix (writes (snd (set_field fuel fmt cfg hw target h))) (expected @ [''PAUSE'']) \<and>
            (fst (set_field fuel fmt cfg hw target h) = Inr () \<longrightarrow>
               prefix expected (writes (snd (set_field fuel fmt cfg hw target h))))"
proof -
  define expected where "expected = writes h @ [''PAUSE'', ''CONF:FIELD:TARG '' @ fmt target] @
      (if persistent_switch cfg \<and>
          hw (snd (can_start_ramping cfg hw h) @
            [Write ''PAUSE'', Write (''CONF:FIELD:TARG '' @ fmt target)]) ''PS?'' = ''0''
       then [''PS 1''] else []) @ [''RAMP'']"
  have p: "prefix (writes (snd (ramp_to fuel fmt cfg hw target h))) expected"
    unfolding expected_def by (rule ramp_to_writes(1) [OF assms])
  have e: "writes (snd (ramp_to fuel fmt cfg hw target h)) = expected"
    if "fst (ramp_to fuel fmt cfg hw target h) = Inr ()"
    unfolding expected_def by (rule ramp_to_writes(2) [OF assms that])
  obtain r1 h1 where r: "ramp_to fuel fmt cfg hw target h = (r1, h1)"
    by (cases "ramp_to fuel fmt cfg hw target h")
  have s: "prefix (writes (snd (set_field fuel fmt cfg hw target h))) (expected @ [''PAUSE'']) \<and>
      (fst (set_field fuel fmt cfg hw target h) = Inr () \<longrightarrow>
         prefix expected (writes (snd (set_field fuel fmt cfg hw target h))))"
  proof (cases r1)
    case (Inl err)
    with r have "set_field fuel fmt cfg hw target h = (Inl err, h1)"
      by (simp add: set_field_after_ramp_to)
    with p r show ?thesis by (auto simp add: prefix_def)
  next
    case (Inr u)
    with r assms have sf: "set_field fuel fmt cfg hw target h = ramp_monitor fuel hw h1"
      by (simp add: set_field_after_ramp_to)
    from e r Inr have "writes h1 = expected" by simp
    with ramp_monitor_writes [of fuel hw h1] sf show ?thesis by auto
  qed
  from p e s show ?thesis
    unfolding Let_def expected_def by blast
qed

subsection \<open>The blocking and the non-blocking operation\<close>

text \<open>
  Claim C4. For every target, instrument and transcript so far, \<^verbatim>\<open>_set_field\<close> and
  \<^verbatim>\<open>_ramp_to\<close> hold the same conversation up to and including the ramp start: the
  blocking run is the non-blocking run, followed by the ramp monitor when the gate
  allowed the ramp, and by nothing otherwise; an exception of the non-blocking run is
  the blocking run's too. The transcript of \<^verbatim>\<open>_ramp_to\<close> is a prefix of that of
  \<^verbatim>\<open>_set_field\<close>, and when the gate allows the ramp and \<^verbatim>\<open>_ramp_to\<close> returns, the ramp
  start is the last thing it did.
\<close>

theorem blocking_extends_nonblocking:
  "set_field fuel fmt cfg hw target h =
     (case ramp_to fuel fmt cfg hw target h of
        (Inl e, h1) \<Rightarrow> (Inl e, h1)
      | (Inr u, h1) \<Rightarrow>
          if fst (can_start_ramping cfg hw h) = Inr True then ramp_monitor fuel hw h1
          else (Inr (), h1)) \<and>
   prefix (snd (ramp_to fuel fmt cfg hw target h)) (snd (set_field fuel fmt cfg hw target h)) \<and>
   (fst (can_start_ramping cfg hw h) = Inr True \<and>
    fst (ramp_to fuel fmt cfg hw target h) = Inr () \<longrightarrow>
      (\<exists>h0. snd (ramp_to fuel fmt cfg hw target h) = h0 @ [Write ''RAMP'']))"
proof -
  obtain r1 h1 where r: "ramp_to fuel fmt cfg hw target h = (r1, h1)"
    by (cases "ramp_to fuel fmt cfg hw target h")
  have p: "prefix (snd (ramp_to fuel fmt cfg hw target h)) (snd (set_field fuel fmt cfg hw target h))"
    using ramp_monitor_extends [of h1 fuel hw]
    by (simp add: set_field_after_ramp_to r split: sum.splits)
  have l: "\<exists>h0. snd (ramp_to fuel fmt cfg hw target h) = h0 @ [Write ''RAMP'']"
    if g: "fst (can_start_ramping cfg hw h) = Inr True"
      and ok: "fst (ramp_to fuel fmt cfg hw target h) = Inr ()"
  proof -
    obtain g0 where g0: "can_start_ramping cfg hw h = (Inr True, g0)"
      using g by (cases "can_start_ramping cfg hw h") simp
    show ?thesis
      using ok
      by (auto simp add: ramp_to_open [OF g0] Let_def split: if_splits prod.splits sum.splits)
  qed
  from p l show ?thesis
    by (simp add: set_field_after_ramp_to [symmetric])
qed

lemma bare_gate:
  "can_start_ramping bare_magnet (scripted holding_cold [Paused, Ramping]) [] =
     (Inr True, [Ask ''QU?'' ''0'', Ask ''STATE?'' ''3''])"
  by (simp add: run_defs fixture_defs)

lemma bare_ramp_to:
  "ramp_to 2 fmt_tenths bare_magnet (scripted holding_cold [Paused, Ramping]) (2 / 5) [] =
     (Inr (), [Ask ''QU?'' ''0'', Ask ''STATE?'' ''3'', Write ''PAUSE'',
       Write ''CONF:FIELD:TARG 0.4'', Write ''RAMP''])"
  by (simp add: run_defs fixture_defs)

lemma bare_monitor:
  "ramp_monitor 2 (scripted holding_cold [Paused, Ramping])
     [Ask ''QU?'' ''0'', Ask ''STATE?'' ''3'', Write ''PAUSE'', Write ''CONF:FIELD:TARG 0.4'',
      Write ''RAMP''] =
     (Inr (), [Ask ''QU?'' ''0'', Ask ''STATE?'' ''3'', Write ''PAUSE'',
       Write ''CONF:FIELD:TARG 0.4'', Write ''RAMP'', Sleep 500, Ask ''STATE?'' ''1'', Sleep 300,
       Ask ''STATE?'' ''2'', Sleep 2000, Ask ''STATE?'' ''2'', Write ''PAUSE''])"
  by (simp add: run_defs fixture_defs)

theorem blocking_extends_nonblocking_witness:
  "fst (can_start_ramping bare_magnet (scripted holding_cold [Paused, Ramping]) []) = Inr True \<and>
   fst (ramp_to 2 fmt_tenths bare_magnet (scripted holding_cold [Paused, Ramping]) (2 / 5) []) =
     Inr () \<and>
   snd (ramp_to 2 fmt_tenths bare_magnet (scripted holding_cold [Paused, Ramping]) (2 / 5) []) =
     [Ask ''QU?'' ''0'', Ask ''STATE?'' ''3'', Write ''PAUSE'', Write ''CONF:FIELD:TARG 0.4''] @
     [Write ''RAMP''] \<and>
   snd (set_field 2 fmt_tenths bare_magnet (scripted holding_cold [Paused, Ramping]) (2 / 5) []) =
     snd (ramp_to 2 fmt_tenths bare_magnet (scripted holding_cold [Paused, Ramping]) (2 / 5) []) @
     [Sleep 500, Ask ''STATE?'' ''1'', Sleep 300, Ask ''STATE?'' ''2'', Sleep 2000,
      Ask ''STATE?'' ''2'', Write ''PAUSE'']"
  using blocking_extends_nonblocking [where cfg = bare_magnet and h = "[]" and fuel = 2
      and fmt = fmt_tenths and target = "2 / 5" and hw = "scripted holding_cold [Paused, Ramping]"]
  by (simp add: bare_gate bare_ramp_to bare_monitor)

subsection \<open>Targets beyond the field rating\<close>

text \<open>
  Claim C5. For every target whose magnitude exceeds the field rating, the product of
  the coil constant and the current rating, \<open>beginRamp\<close> fails with \<open>OutOfRange\<close> in
  either mode and leaves the transcript as it was: nothing is written to the
  instrument and nothing is asked.
\<close>

theorem out_of_range_target_rejected:
  assumes "\<bar>target\<bar> > field_rating cfg"
  shows "beginRamp blocking fuel fmt cfg hw target h = (Inl OutOfRange, h) \<and>
     writes (snd (beginRamp blocking fuel fmt cfg hw target h)) = writes h \<and>
     field_rating cfg = coil_constant cfg * current_rating cfg"
  using assms by (simp add: beginRamp_def raise_io_def field_rating_def)

theorem out_of_range_target_rejected_witness:
  "\<bar>3 / 2\<bar> > field_rating magnet \<and> field_rating magnet = 1 \<and>
   beginRamp True 3 fmt_tenths magnet (steady holding_cold) (3 / 2) [] = (Inl OutOfRange, []) \<and>
   beginRamp False 3 fmt_tenths magnet (steady holding_cold) (3 / 2) [] = (Inl OutOfRange, [])"
  using out_of_range_target_rejected [where cfg = magnet and target = "3 / 2" and h = "[]"
      and fuel = 3 and fmt = fmt_tenths and hw = "steady holding_cold" and blocking = True]
    out_of_range_target_rejected [where cfg = magnet and target = "3 / 2" and h = "[]"
      and fuel = 3 and fmt = fmt_tenths and hw = "steady holding_cold" and blocking = False]
  by (simp add: field_rating_def magnet_def)

subsection \<open>The gate asks no more than it needs\<close>

text \<open>
  Claim C10. When the quench flag reads true, \<^verbatim>\<open>_can_start_ramping\<close> returns false after
  that single query, without asking for persistent mode, heater or ramp state. With
  no persistent switch configured it asks for the quench flag and, at most, for the
  ramp state, never for persistent mode or heater; and two evaluations without a
  switch that read the same quench reply and, when that reply is \<^verbatim>\<open>'0'\<close>, the same
  state reply have the same outcome, whatever else the instruments would answer.
\<close>

theorem gate_short_circuits:
  "(hw h ''QU?'' = ''1'' \<longrightarrow>
      can_start_ramping cfg hw h = (Inr False, h @ [Ask ''QU?'' ''1''])) \<and>
   (\<not> persistent_switch cfg \<longrightarrow>
      asks (snd (can_start_ramping cfg hw h)) = asks h @ [''QU?''] \<or>
      asks (snd (can_start_ramping cfg hw h)) = asks h @ [''QU?'', ''STATE?'']) \<and>
   (\<not> persistent_switch cfg \<and> \<not> persistent_switch cfg' \<and>
    hw h ''QU?'' = hw' h' ''QU?'' \<and>
    (hw h ''QU?'' = ''0'' \<longrightarrow>
       hw (h @ [Ask ''QU?'' ''0'']) ''STATE?'' = hw' (h' @ [Ask ''QU?'' ''0'']) ''STATE?'') \<longrightarrow>
      fst (can_start_ramping cfg hw h) = fst (can_start_ramping cfg' hw' h'))"
proof (intro conjI impI)
  assume "hw h ''QU?'' = ''1''"
  then show "can_start_ramping cfg hw h = (Inr False, h @ [Ask ''QU?'' ''1''])"
    by (simp add: can_start_ramping_def bind_io_def return_io_def reads_run flag_of_reply_def)
next
  assume "\<not> persistent_switch cfg"
  then show "asks (snd (can_start_ramping cfg hw h)) = asks h @ [''QU?''] \<or>
      asks (snd (can_start_ramping cfg hw h)) = asks h @ [''QU?'', ''STATE?'']"
    by (simp add: can_start_ramping_def bind_io_def return_io_def reads_run asks_append
        split: option.splits)
next
  assume a: "\<not> persistent_switch cfg \<and> \<not> persistent_switch cfg' \<and>
    hw h ''QU?'' = hw' h' ''QU?'' \<and>
    (hw h ''QU?'' = ''0'' \<longrightarrow>
       hw (h @ [Ask ''QU?'' ''0'']) ''STATE?'' = hw' (h' @ [Ask ''QU?'' ''0'']) ''STATE?'')"
  show "fst (can_start_ramping cfg hw h) = fst (can_start_ramping cfg' hw' h')"
  proof (cases "hw h ''QU?'' = ''0''")
    case True
    with a have q: "hw h ''QU?'' = ''0''" and q': "hw' h' ''QU?'' = ''0''"
      and s: "hw (h @ [Ask ''QU?'' ''0'']) ''STATE?'' = hw' (h' @ [Ask ''QU?'' ''0'']) ''STATE?''"
      and p: "\<not> persistent_switch cfg" "\<not> persistent_switch cfg'"
      by auto
    show ?thesis
      by (simp add: can_start_ramping_def bind_io_def return_io_def raise_io_def reads_run
          flag_of_reply_def q q' s p split: option.splits)
  next
    case False
    with a have q: "hw' h' ''QU?'' = hw h ''QU?''" "hw h ''QU?'' \<noteq> ''0''"
      and p: "\<not> persistent_switch cfg" "\<not> persistent_switch cfg'"
      by auto
    show ?thesis
      by (simp add: can_start_ramping_def bind_io_def return_io_def raise_io_def reads_run
          flag_of_reply_def q p split: option.splits)
  qed
qed

theorem gate_short_circuits_witness:
  "steady quenched_status [] ''QU?'' = ''1'' \<and>
   can_start_ramping magnet (steady quenched_status) [] = (Inr False, [Ask ''QU?'' ''1'']) \<and>
   \<not> persistent_switch bare_magnet \<and>
   asks (snd (can_start_ramping bare_magnet (steady holding_cold) [])) = [''QU?'', ''STATE?''] \<and>
   steady holding_cold [] ''QU?'' = steady holding_warm [Sleep 500] ''QU?'' \<and>
   fst (can_start_ramping bare_magnet (steady holding_cold) []) =
     fst (can_start_ramping bare_magnet (steady holding_warm) [Sleep 500])"
  using gate_short_circuits [where cfg = magnet and hw = "steady quenched_status" and h = "[]"]
    gate_short_circuits [where cfg = bare_magnet and cfg' = bare_magnet
      and hw = "steady holding_cold" and h = "[]"
      and hw' = "steady holding_warm" and h' = "[Sleep 500]"]
  by (simp add: run_defs fixture_defs)

subsection \<open>What a polling loop does\<close>

lemma state_of_reply_iff: "state_of_reply r = Some s \<longleftrightarrow> r = reply_of_state s"
  by (cases s) (auto simp: state_of_reply_def state_codes_def split: if_splits)

lemma poll_reply_0: "poll_reply hw st h 0 = hw h ''STATE?''"
  by (simp add: poll_reply_def)

lemma poll_reply_Suc:
  "poll_reply hw st (h @ [Ask ''STATE?'' (reply_of_state st), Sleep 300]) k =
     poll_reply hw st h (Suc k)"
  by (simp add: poll_reply_def)

lemma wait_while_step:
  "wait_while (Suc fuel) hw st h =
     (if hw h ''STATE?'' = reply_of_state st
      then wait_while fuel hw st (h @ [Ask ''STATE?'' (reply_of_state st), Sleep 300])
      else ((case state_of_reply (hw h ''STATE?'') of
               None \<Rightarrow> Inl (KeyError (hw h ''STATE?'')) | Some s \<Rightarrow> Inr ()),
            h @ [Ask ''STATE?'' (hw h ''STATE?'')]))"
  by (auto simp add: bind_io_def reads_run sleep_def return_io_def state_of_reply_iff
      state_of_reply_of_state split: option.splits)

lemma wait_while_stuck:
  "(\<And>k. poll_reply hw st h k = reply_of_state st) \<Longrightarrow>
     wait_while fuel hw st h = (Inl OutOfFuel, h @ polls fuel st)"
proof (induction fuel arbitrary: h)
  case 0
  show ?case by (simp add: raise_io_def)
next
  case (Suc fuel)
  have here: "hw h ''STATE?'' = reply_of_state st"
    using Suc.prems [of 0] by (simp add: poll_reply_0)
  have "wait_while fuel hw st (h @ [Ask ''STATE?'' (reply_of_state st), Sleep 300]) =
      (Inl OutOfFuel, (h @ [Ask ''STATE?'' (reply_of_state st), Sleep 300]) @ polls fuel st)"
    by (rule Suc.IH) (simp add: poll_reply_Suc Suc.prems)
  with here show ?case by (simp add: wait_while_step del: wait_while.simps)
qed

lemma wait_while_exits:
  "(\<And>j. j < k \<Longrightarrow> poll_reply hw st h j = reply_of_state st) \<Longrightarrow>
   poll_reply hw st h k \<noteq> reply_of_state st \<Longrightarrow> k < fuel \<Longrightarrow>
     wait_while fuel hw st h =
       ((case state_of_reply (poll_reply hw st h k) of
           None \<Rightarrow> Inl (KeyError (poll_reply hw st h k)) | Some s \<Rightarrow> Inr ()),
        h @ polls k st @ [Ask ''STATE?'' (poll_reply hw st h k)])"
proof (induction k arbitrary: h fuel)
  case 0
  then obtain m where "fuel = Suc m" by (cases fuel) auto
  with 0 show ?case
    by (simp add: wait_while_step poll_reply_0 del: wait_while.simps cong: option.case_cong)
next
  case (Suc k)
  then obtain m where m: "fuel = Suc m" "k < m" by (cases fuel) auto
  have here: "hw h ''STATE?'' = reply_of_state st"
    using Suc.prems(1) [of 0] by (simp add: poll_reply_0)
  let ?h = "h @ [Ask ''STATE?'' (reply_of_state st), Sleep 300]"
  have "wait_while m hw st ?h =
       ((case state_of_reply (poll_reply hw st ?h k) of
           None \<Rightarrow> Inl (KeyError (poll_reply hw st ?h k)) | Some s \<Rightarrow> Inr ()),
        ?h @ polls k st @ [Ask ''STATE?'' (poll_reply hw st ?h k)])"
  proof (rule Suc.IH)
    fix j assume "j < k"
    then show "poll_reply hw st ?h j = reply_of_state st"
      using Suc.prems(1) [of "Suc j"] by (simp add: poll_reply_Suc)
  next
    show "poll_reply hw st ?h k \<noteq> reply_of_state st"
      using Suc.prems(2) by (simp add: poll_reply_Suc)
  next
    show "k < m" by (rule m(2))
  qed
  with here m show ?case
    by (simp add: wait_while_step poll_reply_Suc del: wait_while.simps cong: option.case_cong)
qed

lemma wait_while_returns:
  "wait_while fuel hw st h = (Inr (), h') \<Longrightarrow>
     \<exists>k r s. k < fuel \<and> h' = h @ polls k st @ [Ask ''STATE?'' r] \<and>
       state_of_reply r = Some s \<and> s \<noteq> st"
proof (induction fuel arbitrary: h)
  case 0
  then show ?case by (simp add: raise_io_def)
next
  case (Suc fuel)
  show ?case
  proof (cases "hw h ''STATE?'' = reply_of_state st")
    case True
    with Suc.prems have
      "wait_while fuel hw st (h @ [Ask ''STATE?'' (reply_of_state st), Sleep 300]) = (Inr (), h')"
      by (simp add: wait_while_step del: wait_while.simps)
    from Suc.IH [OF this] obtain k r s where "k < fuel"
      "h' = (h @ [Ask ''STATE?'' (reply_of_state st), Sleep 300]) @ polls k st @ [Ask ''STATE?'' r]"
      "state_of_reply r = Some s" "s \<noteq> st" by blast
    then have "Suc k < Suc fuel \<and> h' = h @ polls (Suc k) st @ [Ask ''STATE?'' r] \<and>
       state_of_reply r = Some s \<and> s \<noteq> st" by simp
    then show ?thesis by blast
  next
    case False
    with Suc.prems obtain s where "state_of_reply (hw h ''STATE?'') = Some s"
      and "h' = h @ polls 0 st @ [Ask ''STATE?'' (hw h ''STATE?'')]"
      by (auto simp add: wait_while_step simp del: wait_while.simps split: option.splits)
    moreover from this False have "s \<noteq> st" by (auto simp: state_of_reply_iff)
    ultimately show ?thesis by blast
  qed
qed

subsection \<open>The heater sequencer\<close>

lemma polls_polled: "polls k st = polled (replicate k (reply_of_state st))"
  by (induction k) simp_all

lemma wait_while_returns_decoded:
  assumes "wait_while fuel hw st h = (Inr (), h')"
  shows "\<exists>rs r s. length rs < fuel \<and> h' = h @ polled rs @ [Ask ''STATE?'' r] \<and>
       list_all (\<lambda>x. state_of_reply x = Some st) rs \<and> state_of_reply r = Some s \<and> s \<noteq> st"
proof -
  from wait_while_returns [OF assms] obtain k r s where k: "k < fuel"
    "h' = h @ polls k st @ [Ask ''STATE?'' r]" "state_of_reply r = Some s" "s \<noteq> st" by blast
  let ?rs = "replicate k (reply_of_state st)"
  have "list_all (\<lambda>x. state_of_reply x = Some st) ?rs"
    by (simp add: list_all_iff state_of_reply_of_state)
  with k have "length ?rs < fuel \<and> h' = h @ polled ?rs @ [Ask ''STATE?'' r] \<and>
       list_all (\<lambda>x. state_of_reply x = Some st) ?rs \<and> state_of_reply r = Some s \<and> s \<noteq> st"
    by (simp add: polls_polled)
  then show ?thesis by blast
qed

text \<open>
  The heater sequencer as a function of the text it is given.
  \<^verbatim>\<open>_set_persistent_switch_heater\<close> writes exactly one command and waits: heater on and
  the transition state heating switch for a text that Python takes as true, heater
  off and cooling switch for the empty text. When it returns, every poll but the last
  read the transition state and the last one read another state. When the polls
  read the transition state \<open>k\<close> times and then another state, it returns after
  that poll. When every poll reads the transition state it is still polling after
  any number of polls: it never returns, and there is no timeout.
\<close>

theorem heater_sequencer:
  "let cmd = (if val \<noteq> [] then ''PS 1'' else ''PS 0'');
       tr = (if val \<noteq> [] then HeatingSwitch else CoolingSwitch);
       h1 = h @ [Write cmd, Sleep 500]
   in writes (snd (set_persistent_switch_heater fuel hw val h)) = writes h @ [cmd] \<and>
      (fst (set_persistent_switch_heater fuel hw val h) = Inr () \<longrightarrow>
         (\<exists>rs r s. snd (set_persistent_switch_heater fuel hw val h) =
                    h1 @ polled rs @ [Ask ''STATE?'' r] \<and>
                  list_all (\<lambda>x. state_of_reply x = Some tr) rs \<and>
                  state_of_reply r = Some s \<and> s \<noteq> tr)) \<and>
      (\<forall>k s. (\<forall>j<k. poll_reply hw tr h1 j = reply_of_state tr) \<and>
             poll_reply hw tr h1 k = reply_of_state s \<and> s \<noteq> tr \<and> k < fuel \<longrightarrow>
         set_persistent_switch_heater fuel hw val h =
           (Inr (), h1 @ polls k tr @ [Ask ''STATE?'' (reply_of_state s)])) \<and>
      ((\<forall>k. poll_reply hw tr h1 k = reply_of_state tr) \<longrightarrow>
         (\<forall>n. set_persistent_switch_heater n hw val h = (Inl OutOfFuel, h1 @ polls n tr)))"
proof -
  define cmd where "cmd = (if val \<noteq> [] then ''PS 1'' else ''PS 0'')"
  define tr where "tr = (if val \<noteq> [] then HeatingSwitch else CoolingSwitch)"
  define h1 where "h1 = h @ [Write cmd, Sleep 500]"
  have run: "set_persistent_switch_heater n hw val h = wait_while n hw tr h1" for n
    by (simp add: heater_run cmd_def tr_def h1_def)
  have a: "writes (snd (set_persistent_switch_heater fuel hw val h)) = writes h @ [cmd]"
    by (simp add: heater_writes cmd_def)
  have b: "\<exists>rs r s. snd (set_persistent_switch_heater fuel hw val h) =
                    h1 @ polled rs @ [Ask ''STATE?'' r] \<and>
                  list_all (\<lambda>x. state_of_reply x = Some tr) rs \<and>
                  state_of_reply r = Some s \<and> s \<noteq> tr"
    if "fst (set_persistent_switch_heater fuel hw val h) = Inr ()"
  proof -
    from that obtain h' where "wait_while fuel hw tr h1 = (Inr (), h')"
      by (cases "wait_while fuel hw tr h1") (simp add: run)
    from wait_while_returns_decoded [OF this] this show ?thesis by (auto simp: run)
  qed
  have d: "set_persistent_switch_heater fuel hw val h =
           (Inr (), h1 @ polls k tr @ [Ask ''STATE?'' (reply_of_state s)])"
    if "(\<forall>j<k. poll_reply hw tr h1 j = reply_of_state tr) \<and>
             poll_reply hw tr h1 k = reply_of_state s \<and> s \<noteq> tr \<and> k < fuel" for k s
  proof -
    from that have ne: "poll_reply hw tr h1 k \<noteq> reply_of_state tr"
      using state_of_reply_iff [of "reply_of_state s" tr] by (auto simp: state_of_reply_of_state)
    have "wait_while fuel hw tr h1 =
       ((case state_of_reply (poll_reply hw tr h1 k) of
           None \<Rightarrow> Inl (KeyError (poll_reply hw tr h1 k)) | Some s \<Rightarrow> Inr ()),
        h1 @ polls k tr @ [Ask ''STATE?'' (poll_reply hw tr h1 k)])"
      using that ne by (intro wait_while_exits) auto
    with that show ?thesis by (simp add: run state_of_reply_of_state)
  qed
  have e: "\<forall>n. set_persistent_switch_heater n hw val h = (Inl OutOfFuel, h1 @ polls n tr)"
    if "\<forall>k. poll_reply hw tr h1 k = reply_of_state tr"
    using that by (simp add: run wait_while_stuck)
  from a b d e show ?thesis
    unfolding Let_def cmd_def [symmetric] tr_def [symmetric] h1_def [symmetric] by blast
qed

lemma heating_polls:
  "poll_reply (scripted holding_cold [HeatingSwitch, HeatingSwitch]) HeatingSwitch
     [Write ''PS 1'', Sleep 500] 0 = ''9''"
  "poll_reply (scripted holding_cold [HeatingSwitch, HeatingSwitch]) HeatingSwitch
     [Write ''PS 1'', Sleep 500] (Suc 0) = ''9''"
  "poll_reply (scripted holding_cold [HeatingSwitch, HeatingSwitch]) HeatingSwitch
     [Write ''PS 1'', Sleep 500] (Suc (Suc 0)) = ''2''"
  by (simp_all add: poll_reply_def fixture_defs)

lemma stuck_polls:
  "poll_reply (steady stuck_heating) HeatingSwitch h k = reply_of_state HeatingSwitch"
  by (simp add: poll_reply_def steady_def stuck_heating_def)

theorem heater_sequencer_witness:
  "set_persistent_switch_heater 5 (scripted holding_cold [HeatingSwitch, HeatingSwitch]) ''1'' [] =
     (Inr (), [Write ''PS 1'', Sleep 500, Ask ''STATE?'' ''9'', Sleep 300, Ask ''STATE?'' ''9'',
       Sleep 300, Ask ''STATE?'' ''2'']) \<and>
   (\<forall>k. poll_reply (steady stuck_heating) HeatingSwitch [Write ''PS 1'', Sleep 500] k = ''9'') \<and>
   (\<forall>n. set_persistent_switch_heater n (steady stuck_heating) ''1'' [] =
      (Inl OutOfFuel, [Write ''PS 1'', Sleep 500] @ polls n HeatingSwitch))"
proof -
  let ?hw = "scripted holding_cold [HeatingSwitch, HeatingSwitch]"
  have a: "set_persistent_switch_heater 5 ?hw ''1'' [] =
     (Inr (), [Write ''PS 1'', Sleep 500, Ask ''STATE?'' ''9'', Sleep 300, Ask ''STATE?'' ''9'',
       Sleep 300, Ask ''STATE?'' ''2''])"
    using heater_sequencer [where val = "''1''" and hw = ?hw and h = "[]" and fuel = 5,
        unfolded Let_def, THEN conjunct2, THEN conjunct2, THEN conjunct1, rule_format,
        of "Suc (Suc 0)" Holding]
    by (simp add: less_Suc_eq heating_polls)
  from heater_sequencer [where val = "''1''" and hw = "steady stuck_heating" and h = "[]"
      and fuel = 5]
  have b: "\<forall>n. set_persistent_switch_heater n (steady stuck_heating) ''1'' [] =
      (Inl OutOfFuel, [Write ''PS 1'', Sleep 500] @ polls n HeatingSwitch)"
    by (simp add: Let_def stuck_polls)
  from a b show ?thesis by (simp add: stuck_polls)
qed

text \<open>
  Claim C7, on the code. The disable request \<^verbatim>\<open>persistent_switch_heater_enabled(False)\<close>
  reaches \<^verbatim>\<open>_set_persistent_switch_heater\<close> as the mapped text \<^verbatim>\<open>'0'\<close>, which
  \<^verbatim>\<open>if value:\<close> takes as true. So disabling does what enabling does: it writes the
  heater-on command and waits while the state reads heating switch. On an instrument
  whose switch is cooling down it returns at the first poll. The branch that writes
  the heater-off command and waits on cooling switch is never reached.
\<close>

theorem heater_disable_enables:
  "reply_of_flag False = ''0'' \<and>
   persistent_switch_heater_enabled_set fuel hw False h =
     persistent_switch_heater_enabled_set fuel hw True h \<and>
   writes (snd (persistent_switch_heater_enabled_set fuel hw False h)) = writes h @ [''PS 1''] \<and>
   persistent_switch_heater_enabled_set 3 (scripted holding_warm [HeatingSwitch]) False [] =
     (Inr (), [Write ''PS 1'', Sleep 500, Ask ''STATE?'' ''9'', Sleep 300, Ask ''STATE?'' ''2'']) \<and>
   persistent_switch_heater_enabled_set 3 (steady cooling_down) False [] =
     (Inr (), [Write ''PS 1'', Sleep 500, Ask ''STATE?'' ''10''])"
proof -
  have "persistent_switch_heater_enabled_set 3 (scripted holding_warm [HeatingSwitch]) False [] =
     (Inr (), [Write ''PS 1'', Sleep 500, Ask ''STATE?'' ''9'', Sleep 300, Ask ''STATE?'' ''2''])"
    by (simp add: run_defs fixture_defs)
  moreover have "persistent_switch_heater_enabled_set 3 (steady cooling_down) False [] =
     (Inr (), [Write ''PS 1'', Sleep 500, Ask ''STATE?'' ''10''])"
    by (simp add: run_defs fixture_defs cooling_down_def)
  moreover have "persistent_switch_heater_enabled_set fuel hw False h =
     persistent_switch_heater_enabled_set fuel hw True h"
    by (simp add: enabled_set_run)
  moreover have "reply_of_flag False = ''0''" by (simp add: reply_of_flag_def)
  ultimately show ?thesis
    using enabled_set_writes [of fuel hw False h] by blast
qed

subsection \<open>The ramp monitor\<close>

lemma ramp_monitor_run:
  "ramp_monitor fuel hw h =
     (case wait_while fuel hw Ramping (h @ [Sleep 500]) of
        (Inl e, h2) \<Rightarrow> (Inl e, h2)
      | (Inr u, h2) \<Rightarrow>
          (case state_of_reply (hw (h2 @ [Sleep 2000]) ''STATE?'') of
             None \<Rightarrow> (Inl (KeyError (hw (h2 @ [Sleep 2000]) ''STATE?'')),
                       h2 @ [Sleep 2000, Ask ''STATE?'' (hw (h2 @ [Sleep 2000]) ''STATE?'')])
           | Some s2 \<Rightarrow> (Inr (),
                       h2 @ [Sleep 2000, Ask ''STATE?'' (hw (h2 @ [Sleep 2000]) ''STATE?'')] @
                         (if s2 = Holding then [Write ''PAUSE''] else []))))"
  by (simp add: ramp_monitor_def bind_io_def sleep_def reads_run return_io_def pause_def
      write_cmd_def split: prod.splits sum.splits option.splits)

text \<open>
  Against claim C6 as stated. On a magnet without a switch the blocking operation is
  run twice from a paused instrument: once the polls read ramping, ramping, holding,
  and once ramping, quench detected. In the second run no pause is written and no
  exception is raised, but nothing is reported either: \<^verbatim>\<open>_set_field\<close> ends in
  \<^verbatim>\<open>pass\<close> and returns the same empty result as in the first run.
\<close>

theorem blocking_ramp_reports_nothing_counterexample:
  "set_field 4 fmt_tenths bare_magnet (scripted holding_cold [Paused, Ramping, Ramping]) (2 / 5) [] =
     (Inr (), [Ask ''QU?'' ''0'', Ask ''STATE?'' ''3'', Write ''PAUSE'',
       Write ''CONF:FIELD:TARG 0.4'', Write ''RAMP'', Sleep 500, Ask ''STATE?'' ''1'', Sleep 300,
       Ask ''STATE?'' ''1'', Sleep 300, Ask ''STATE?'' ''2'', Sleep 2000, Ask ''STATE?'' ''2'',
       Write ''PAUSE'']) \<and>
   set_field 4 fmt_tenths bare_magnet (scripted quench_detected [Paused, Ramping]) (2 / 5) [] =
     (Inr (), [Ask ''QU?'' ''0'', Ask ''STATE?'' ''3'', Write ''PAUSE'',
       Write ''CONF:FIELD:TARG 0.4'', Write ''RAMP'', Sleep 500, Ask ''STATE?'' ''1'', Sleep 300,
       Ask ''STATE?'' ''7'', Sleep 2000, Ask ''STATE?'' ''7'']) \<and>
   fst (set_field 4 fmt_tenths bare_magnet (scripted quench_detected [Paused, Ramping]) (2 / 5) []) =
   fst (set_field 4 fmt_tenths bare_magnet (scripted holding_cold [Paused, Ramping, Ramping])
          (2 / 5) [])"
  by (simp add: run_defs fixture_defs quench_detected_def)

text \<open>
  Claim C6, amended. After the ramp start, the blocking operation waits, polls the
  ramp state while it reads ramping, waits two seconds and reads the state once more.
  A monitor that returns has that transcript, and it wrote the pause command if and
  only if the state read last is holding; otherwise it wrote nothing. Either way it
  returns the same empty result, without an exception and without a report of how
  the ramp ended. Conversely, when the polls read ramping \<open>k\<close> times and then
  another state, and the last read gives a state, the monitor returns with exactly
  that transcript. So the polls ramping, ramping, holding end with a pause, and the
  polls ramping, quench detected end without one and without an error.
\<close>

theorem ramp_monitor_pauses_iff_holding:
  "(fst (ramp_monitor fuel hw h) = Inr () \<longrightarrow>
      (\<exists>rs r s r2 s2. list_all (\<lambda>x. state_of_reply x = Some Ramping) rs \<and>
         state_of_reply r = Some s \<and> s \<noteq> Ramping \<and> state_of_reply r2 = Some s2 \<and>
         snd (ramp_monitor fuel hw h) =
           h @ [Sleep 500] @ polled rs @
             [Ask ''STATE?'' r, Sleep 2000, Ask ''STATE?'' r2] @
             (if s2 = Holding then [Write ''PAUSE''] else []) \<and>
         writes (snd (ramp_monitor fuel hw h)) =
           writes h @ (if s2 = Holding then [''PAUSE''] else []))) \<and>
   (\<forall>k s s2.
      (\<forall>j<k. poll_reply hw Ramping (h @ [Sleep 500]) j = reply_of_state Ramping) \<and>
      poll_reply hw Ramping (h @ [Sleep 500]) k = reply_of_state s \<and> s \<noteq> Ramping \<and>
      hw (h @ [Sleep 500] @ polls k Ramping @ [Ask ''STATE?'' (reply_of_state s), Sleep 2000])
        ''STATE?'' = reply_of_state s2 \<and> k < fuel \<longrightarrow>
      ramp_monitor fuel hw h =
        (Inr (), h @ [Sleep 500] @ polls k Ramping @
           [Ask ''STATE?'' (reply_of_state s), Sleep 2000, Ask ''STATE?'' (reply_of_state s2)] @
           (if s2 = Holding then [Write ''PAUSE''] else [])))"
proof (intro conjI impI allI)
  assume ok: "fst (ramp_monitor fuel hw h) = Inr ()"
  obtain r1 h2 where w: "wait_while fuel hw Ramping (h @ [Sleep 500]) = (r1, h2)"
    by (cases "wait_while fuel hw Ramping (h @ [Sleep 500])")
  from ok w have r1: "r1 = Inr ()"
    by (cases r1) (simp_all add: ramp_monitor_run)
  from wait_while_returns_decoded [OF w [unfolded r1]] obtain rs r s where
    h2: "h2 = (h @ [Sleep 500]) @ polled rs @ [Ask ''STATE?'' r]"
    and s: "list_all (\<lambda>x. state_of_reply x = Some Ramping) rs"
      "state_of_reply r = Some s" "s \<noteq> Ramping" by blast
  from ok w r1 obtain s2 where s2: "state_of_reply (hw (h2 @ [Sleep 2000]) ''STATE?'') = Some s2"
    by (cases "state_of_reply (hw (h2 @ [Sleep 2000]) ''STATE?'')")
      (simp_all add: ramp_monitor_run)
  have wp: "writes (polled rs) = []" by (induction rs) simp_all
  define r2 where "r2 = hw (h2 @ [Sleep 2000]) ''STATE?''"
  have "snd (ramp_monitor fuel hw h) =
      h2 @ [Sleep 2000, Ask ''STATE?'' r2] @ (if s2 = Holding then [Write ''PAUSE''] else [])"
    using s2 by (simp add: ramp_monitor_run w r1 r2_def)
  then have "snd (ramp_monitor fuel hw h) =
           h @ [Sleep 500] @ polled rs @
             [Ask ''STATE?'' r, Sleep 2000, Ask ''STATE?'' r2] @
             (if s2 = Holding then [Write ''PAUSE''] else [])"
    by (simp add: h2)
  moreover from this have "writes (snd (ramp_monitor fuel hw h)) =
           writes h @ (if s2 = Holding then [''PAUSE''] else [])"
    by (simp add: writes_append wp)
  moreover have "state_of_reply r2 = Some s2" using s2 by (simp add: r2_def)
  ultimately show "\<exists>rs r s r2 s2. list_all (\<lambda>x. state_of_reply x = Some Ramping) rs \<and>
         state_of_reply r = Some s \<and> s \<noteq> Ramping \<and> state_of_reply r2 = Some s2 \<and>
         snd (ramp_monitor fuel hw h) =
           h @ [Sleep 500] @ polled rs @
             [Ask ''STATE?'' r, Sleep 2000, Ask ''STATE?'' r2] @
             (if s2 = Holding then [Write ''PAUSE''] else []) \<and>
         writes (snd (ramp_monitor fuel hw h)) =
           writes h @ (if s2 = Holding then [''PAUSE''] else [])"
    using s by blast
next
  fix k s s2
  assume a: "(\<forall>j<k. poll_reply hw Ramping (h @ [Sleep 500]) j = reply_of_state Ramping) \<and>
      poll_reply hw Ramping (h @ [Sleep 500]) k = reply_of_state s \<and> s \<noteq> Ramping \<and>
      hw (h @ [Sleep 500] @ polls k Ramping @ [Ask ''STATE?'' (reply_of_state s), Sleep 2000])
        ''STATE?'' = reply_of_state s2 \<and> k < fuel"
  then have ne: "poll_reply hw Ramping (h @ [Sleep 500]) k \<noteq> reply_of_state Ramping"
    using state_of_reply_iff [of "reply_of_state s" Ramping]
    by (auto simp: state_of_reply_of_state)
  have "wait_while fuel hw Ramping (h @ [Sleep 500]) =
       ((case state_of_reply (poll_reply hw Ramping (h @ [Sleep 500]) k) of
           None \<Rightarrow> Inl (KeyError (poll_reply hw Ramping (h @ [Sleep 500]) k))
         | Some s \<Rightarrow> Inr ()),
        (h @ [Sleep 500]) @ polls k Ramping @
          [Ask ''STATE?'' (poll_reply hw Ramping (h @ [Sleep 500]) k)])"
    using a ne by (intro wait_while_exits) auto
  with a have w: "wait_while fuel hw Ramping (h @ [Sleep 500]) =
       (Inr (), h @ [Sleep 500] @ polls k Ramping @ [Ask ''STATE?'' (reply_of_state s)])"
    by (simp add: state_of_reply_of_state)
  from a show "ramp_monitor fuel hw h =
        (Inr (), h @ [Sleep 500] @ polls k Ramping @
           [Ask ''STATE?'' (reply_of_state s), Sleep 2000, Ask ''STATE?'' (reply_of_state s2)] @
           (if s2 = Holding then [Write ''PAUSE''] else []))"
    by (simp add: ramp_monitor_run w state_of_reply_of_state)
qed

theorem ramp_monitor_pauses_iff_holding_witness:
  "ramp_monitor 4 (scripted holding_cold [Ramping, Ramping]) [Write ''RAMP''] =
     (Inr (), [Write ''RAMP'', Sleep 500, Ask ''STATE?'' ''1'', Sleep 300, Ask ''STATE?'' ''1'',
        Sleep 300, Ask ''STATE?'' ''2'', Sleep 2000, Ask ''STATE?'' ''2'', Write ''PAUSE'']) \<and>
   ramp_monitor 4 (scripted quench_detected [Ramping]) [Write ''RAMP''] =
     (Inr (), [Write ''RAMP'', Sleep 500, Ask ''STATE?'' ''1'', Sleep 300, Ask ''STATE?'' ''7'',
        Sleep 2000, Ask ''STATE?'' ''7''])"
proof
  show "ramp_monitor 4 (scripted holding_cold [Ramping, Ramping]) [Write ''RAMP''] =
     (Inr (), [Write ''RAMP'', Sleep 500, Ask ''STATE?'' ''1'', Sleep 300, Ask ''STATE?'' ''1'',
        Sleep 300, Ask ''STATE?'' ''2'', Sleep 2000, Ask ''STATE?'' ''2'', Write ''PAUSE''])"
    using ramp_monitor_pauses_iff_holding [where fuel = 4 and h = "[Write ''RAMP'']"
        and hw = "scripted holding_cold [Ramping, Ramping]", THEN conjunct2, rule_format,
        of "Suc (Suc 0)" Holding Holding]
    by (simp add: less_Suc_eq poll_reply_def fixture_defs)
  show "ramp_monitor 4 (scripted quench_detected [Ramping]) [Write ''RAMP''] =
     (Inr (), [Write ''RAMP'', Sleep 500, Ask ''STATE?'' ''1'', Sleep 300, Ask ''STATE?'' ''7'',
        Sleep 2000, Ask ''STATE?'' ''7''])"
    using ramp_monitor_pauses_iff_holding [where fuel = 4 and h = "[Write ''RAMP'']"
        and hw = "scripted quench_detected [Ramping]", THEN conjunct2, rule_format,
        of "Suc 0" QuenchDetected QuenchDetected]
    by (simp add: less_Suc_eq poll_reply_def fixture_defs quench_detected_def)
qed

subsection \<open>Enabling the heater twice\<close>

text \<open>
  Against claim C8 as stated. \<^verbatim>\<open>persistent_switch_heater_enabled(True)\<close> is called twice in
  a row on an instrument that holds and whose heater flag follows the heater
  commands. After the first call the flag reads enabled, and the second call still
  writes the heater-on command, waits half a second and polls the state: it is not a
  no-op.
\<close>

theorem set_heater_twice_counterexample:
  "persistent_switch_heater_enabled_set 3 (scripted holding_cold []) True [] =
     (Inr (), [Write ''PS 1'', Sleep 500, Ask ''STATE?'' ''2'']) \<and>
   scripted holding_cold [] [Write ''PS 1'', Sleep 500, Ask ''STATE?'' ''2''] ''PS?'' = ''1'' \<and>
   persistent_switch_heater_enabled_set 3 (scripted holding_cold []) True
       [Write ''PS 1'', Sleep 500, Ask ''STATE?'' ''2''] =
     (Inr (), [Write ''PS 1'', Sleep 500, Ask ''STATE?'' ''2'',
               Write ''PS 1'', Sleep 500, Ask ''STATE?'' ''2'']) \<and>
   writes (snd (persistent_switch_heater_enabled_set 3 (scripted holding_cold []) True
       [Write ''PS 1'', Sleep 500, Ask ''STATE?'' ''2''])) = [''PS 1'', ''PS 1'']"
  by (simp add: run_defs fixture_defs)

text \<open>
  Claim C8, amended. \<^verbatim>\<open>persistent_switch_heater_enabled(True)\<close> writes the heater-on command
  and waits on every call, whatever the heater flag reads. The guard against a second
  enable is in the ramp operations: when the gate allows the ramp, a persistent
  switch is present and the heater flag is read as enabled, \<^verbatim>\<open>_ramp_to\<close> and
  \<^verbatim>\<open>_set_field\<close> go from the target command straight to the ramp start, with no heater
  command and no thermal wait.
\<close>

theorem heater_enable_guarded_by_caller:
  "writes (snd (persistent_switch_heater_enabled_set fuel hw True h)) = writes h @ [''PS 1''] \<and>
   prefix (h @ [Write ''PS 1'', Sleep 500]) (snd (persistent_switch_heater_enabled_set fuel hw True h)) \<and>
   (fst (can_start_ramping cfg hw h) = Inr True \<and> persistent_switch cfg \<and>
    hw (snd (can_start_ramping cfg hw h) @
          [Write ''PAUSE'', Write (''CONF:FIELD:TARG '' @ fmt target)]) ''PS?'' = ''1'' \<longrightarrow>
      ramp_to fuel fmt cfg hw target h =
        (Inr (), snd (can_start_ramping cfg hw h) @
           [Write ''PAUSE'', Write (''CONF:FIELD:TARG '' @ fmt target), Ask ''PS?'' ''1'',
            Write ''RAMP'']) \<and>
      set_field fuel fmt cfg hw target h =
        ramp_monitor fuel hw (snd (can_start_ramping cfg hw h) @
           [Write ''PAUSE'', Write (''CONF:FIELD:TARG '' @ fmt target), Ask ''PS?'' ''1'',
            Write ''RAMP'']) \<and>
      writes (snd (ramp_to fuel fmt cfg hw target h)) =
        writes h @ [''PAUSE'', ''CONF:FIELD:TARG '' @ fmt target, ''RAMP''])"
proof (intro conjI impI)
  show "writes (snd (persistent_switch_heater_enabled_set fuel hw True h)) = writes h @ [''PS 1'']"
    by (simp add: enabled_set_writes)
  show "prefix (h @ [Write ''PS 1'', Sleep 500]) (snd (persistent_switch_heater_enabled_set fuel hw True h))"
    using wait_while_extends [of "h @ [Write ''PS 1'', Sleep 500]" fuel hw HeatingSwitch]
    by (simp add: enabled_set_run)
next
  assume a: "fst (can_start_ramping cfg hw h) = Inr True \<and> persistent_switch cfg \<and>
    hw (snd (can_start_ramping cfg hw h) @
          [Write ''PAUSE'', Write (''CONF:FIELD:TARG '' @ fmt target)]) ''PS?'' = ''1''"
  then obtain g where g: "can_start_ramping cfg hw h = (Inr True, g)"
    by (cases "can_start_ramping cfg hw h") simp
  from a g have r: "ramp_to fuel fmt cfg hw target h =
      (Inr (), g @ [Write ''PAUSE'', Write (''CONF:FIELD:TARG '' @ fmt target), Ask ''PS?'' ''1'',
            Write ''RAMP''])"
    by (simp add: ramp_to_open [OF g] Let_def)
  with g show "ramp_to fuel fmt cfg hw target h =
        (Inr (), snd (can_start_ramping cfg hw h) @
           [Write ''PAUSE'', Write (''CONF:FIELD:TARG '' @ fmt target), Ask ''PS?'' ''1'',
            Write ''RAMP''])" by simp
  from r g show "set_field fuel fmt cfg hw target h =
        ramp_monitor fuel hw (snd (can_start_ramping cfg hw h) @
           [Write ''PAUSE'', Write (''CONF:FIELD:TARG '' @ fmt target), Ask ''PS?'' ''1'',
            Write ''RAMP''])"
    by (simp add: set_field_after_ramp_to)
  from r g gate_writes_nothing [of cfg hw h]
  show "writes (snd (ramp_to fuel fmt cfg hw target h)) =
        writes h @ [''PAUSE'', ''CONF:FIELD:TARG '' @ fmt target, ''RAMP'']"
    by (simp add: writes_append)
qed

lemma second_ramp_gate:
  "can_start_ramping magnet (scripted holding_cold [])
     [Write ''PAUSE'', Write ''CONF:FIELD:TARG 0.4'', Write ''PS 1'', Write ''RAMP''] =
   (Inr True, [Write ''PAUSE'', Write ''CONF:FIELD:TARG 0.4'', Write ''PS 1'', Write ''RAMP'',
      Ask ''QU?'' ''0'', Ask ''PERS?'' ''0'', Ask ''STATE?'' ''2''])"
  by (simp add: run_defs fixture_defs)

theorem heater_enable_guarded_by_caller_witness:
  "fst (can_start_ramping magnet (scripted holding_cold [])
     [Write ''PAUSE'', Write ''CONF:FIELD:TARG 0.4'', Write ''PS 1'', Write ''RAMP'']) = Inr True \<and>
   persistent_switch magnet \<and>
   scripted holding_cold []
     [Write ''PAUSE'', Write ''CONF:FIELD:TARG 0.4'', Write ''PS 1'', Write ''RAMP'',
      Ask ''QU?'' ''0'', Ask ''PERS?'' ''0'', Ask ''STATE?'' ''2'',
      Write ''PAUSE'', Write ''CONF:FIELD:TARG 0.4''] ''PS?'' = ''1'' \<and>
   ramp_to 3 fmt_tenths magnet (scripted holding_cold []) (2 / 5)
     [Write ''PAUSE'', Write ''CONF:FIELD:TARG 0.4'', Write ''PS 1'', Write ''RAMP''] =
   (Inr (), [Write ''PAUSE'', Write ''CONF:FIELD:TARG 0.4'', Write ''PS 1'', Write ''RAMP'',
      Ask ''QU?'' ''0'', Ask ''PERS?'' ''0'', Ask ''STATE?'' ''2'',
      Write ''PAUSE'', Write ''CONF:FIELD:TARG 0.4'', Ask ''PS?'' ''1'', Write ''RAMP''])"
proof -
  have f: "fmt_tenths (2 / 5) = ''0.4''" by (simp add: fixture_defs)
  have p: "scripted holding_cold []
     [Write ''PAUSE'', Write ''CONF:FIELD:TARG 0.4'', Write ''PS 1'', Write ''RAMP'',
      Ask ''QU?'' ''0'', Ask ''PERS?'' ''0'', Ask ''STATE?'' ''2'',
      Write ''PAUSE'', Write ''CONF:FIELD:TARG 0.4''] ''PS?'' = ''1''"
    by (simp add: fixture_defs)
  have m: "persistent_switch magnet" by (simp add: magnet_def)
  from heater_enable_guarded_by_caller [where cfg = magnet and fuel = 3 and fmt = fmt_tenths
      and target = "2 / 5" and hw = "scripted holding_cold []"
      and h = "[Write ''PAUSE'', Write ''CONF:FIELD:TARG 0.4'', Write ''PS 1'', Write ''RAMP'']"]
  show ?thesis
    by (simp add: second_ramp_gate f p m)
qed

subsection \<open>The ramp rate does not come back\<close>

text \<open>
  What the setter sends has no comma between the rate and the field rating, so the
  first comma-separated field of that text is the rate with the start of the field
  rating attached.
\<close>

lemma first_field_joined:
  "CHR '','' \<notin> set a \<Longrightarrow> first_field (a @ b) = a @ first_field b"
  by (simp add: first_field_def takeWhile_append)

text \<open>
  Claim C9, on the code. The magnet has a field rating of 1.0 T and the ramp rate is
  set to 0.1 T/s. \<^verbatim>\<open>_set_ramp_rate\<close> writes \<^verbatim>\<open>CONF:RAMP:RATE:FIELD 1,0.11.0\<close>: the two
  numbers run together. On an instrument that gives the stored argument back,
  \<^verbatim>\<open>_get_ramp_rate\<close> takes the first comma-separated field, \<^verbatim>\<open>0.11.0\<close>, and raises
  \<^verbatim>\<open>ValueError\<close> instead of returning 0.1. With a comma between the two numbers the
  same getter reads 0.1 back.
\<close>

theorem ramp_rate_does_not_round_trip:
  "field_rating magnet = 1 \<and>
   set_ramp_rate fmt_tenths magnet (1 / 10) [] =
     (Inr (), [Write ''CONF:RAMP:RATE:FIELD 1,0.11.0'']) \<and>
   get_ramp_rate float_plain rate_store [Write ''CONF:RAMP:RATE:FIELD 1,0.11.0''] =
     (Inl (ValueError ''0.11.0''),
      [Write ''CONF:RAMP:RATE:FIELD 1,0.11.0'', Ask ''RAMP:RATE:FIELD:1?'' ''0.11.0'']) \<and>
   get_ramp_rate float_plain rate_store [Write ''CONF:RAMP:RATE:FIELD 1,0.1,1.0''] =
     (Inr (1 / 10),
      [Write ''CONF:RAMP:RATE:FIELD 1,0.1,1.0'', Ask ''RAMP:RATE:FIELD:1?'' ''0.1,1.0''])"
  by (simp add: set_ramp_rate_def get_ramp_rate_def write_cmd_def bind_io_def ask_def
      return_io_def raise_io_def rate_store_def first_field_def float_plain_def
      nat_of_digits_def field_rating_def magnet_def fmt_tenths_def str_nat.simps)

subsection \<open>The order of the commands of a ramp\<close>

lemma ramp_to_shapes:
  assumes g: "can_start_ramping cfg hw h = (Inr True, g)"
    and ok: "fst (ramp_to fuel fmt cfg hw target h) = Inr ()"
  shows "snd (ramp_to fuel fmt cfg hw target h) =
      g @ [Write ''PAUSE'', Write (''CONF:FIELD:TARG '' @ fmt target), Write ''RAMP''] \<or>
    snd (ramp_to fuel fmt cfg hw target h) =
      g @ [Write ''PAUSE'', Write (''CONF:FIELD:TARG '' @ fmt target), Ask ''PS?'' ''1'',
           Write ''RAMP''] \<or>
    (\<exists>rs r s. snd (ramp_to fuel fmt cfg hw target h) =
        g @ [Write ''PAUSE'', Write (''CONF:FIELD:TARG '' @ fmt target), Ask ''PS?'' ''0'',
             Write ''PS 1'', Sleep 500] @ polled rs @ [Ask ''STATE?'' r, Write ''RAMP''] \<and>
        list_all (\<lambda>x. state_of_reply x = Some HeatingSwitch) rs \<and>
        state_of_reply r = Some s \<and> s \<noteq> HeatingSwitch)"
proof -
  let ?h2 = "g @ [Write ''PAUSE'', Write (''CONF:FIELD:TARG '' @ fmt target)]"
  let ?h3 = "?h2 @ [Ask ''PS?'' ''0'', Write ''PS 1'', Sleep 500]"
  consider (bare) "\<not> persistent_switch cfg"
    | (warm) "persistent_switch cfg" "hw ?h2 ''PS?'' = ''1''"
    | (cold) "persistent_switch cfg" "hw ?h2 ''PS?'' = ''0''"
    | (other) "persistent_switch cfg" "hw ?h2 ''PS?'' \<noteq> ''1''" "hw ?h2 ''PS?'' \<noteq> ''0''"
    by blast
  then show ?thesis
  proof cases
    case bare
    then show ?thesis by (simp add: ramp_to_open [OF g] Let_def)
  next
    case warm
    then show ?thesis by (simp add: ramp_to_open [OF g] Let_def)
  next
    case cold
    obtain r1 h4 where w: "wait_while fuel hw HeatingSwitch ?h3 = (r1, h4)"
      by (cases "wait_while fuel hw HeatingSwitch ?h3")
    from ok cold w have r1: "r1 = Inr ()"
      by (cases r1) (simp_all add: ramp_to_open [OF g] Let_def enabled_set_run)
    from wait_while_returns_decoded [OF w [unfolded r1]] obtain rs r s where
      "h4 = ?h3 @ polled rs @ [Ask ''STATE?'' r]"
      "list_all (\<lambda>x. state_of_reply x = Some HeatingSwitch) rs"
      "state_of_reply r = Some s" "s \<noteq> HeatingSwitch" by blast
    moreover from cold w r1 have "snd (ramp_to fuel fmt cfg hw target h) = h4 @ [Write ''RAMP'']"
      by (simp add: ramp_to_open [OF g] Let_def enabled_set_run)
    ultimately show ?thesis by auto
  next
    case other
    with ok show ?thesis by (simp add: ramp_to_open [OF g] Let_def)
  qed
qed

lemma ramp_to_cold:
  assumes g: "can_start_ramping cfg hw h = (Inr True, g)"
    and c: "persistent_switch cfg"
      "hw (g @ [Write ''PAUSE'', Write (''CONF:FIELD:TARG '' @ fmt target)]) ''PS?'' = ''0''"
  shows "ramp_to fuel fmt cfg hw target h =
    (case wait_while fuel hw HeatingSwitch
            (g @ [Write ''PAUSE'', Write (''CONF:FIELD:TARG '' @ fmt target), Ask ''PS?'' ''0'',
                  Write ''PS 1'', Sleep 500]) of
       (Inl e, h4) \<Rightarrow> (Inl e, h4)
     | (Inr u, h4) \<Rightarrow> (Inr (), h4 @ [Write ''RAMP'']))"
  using c by (simp add: ramp_to_open [OF g] Let_def enabled_set_run)

text \<open>
  Claim C3. Whenever the safety gate allows ramping, a ramp operation does, in this
  order and with nothing in between: the pause, the target command carrying the text
  of the requested value, then, only if a persistent switch is present and the
  heater flag is read as not enabled, the heater-enable sequence (heater-on command,
  half a second of waiting, polls until the state is no longer heating switch), and
  then the ramp start. With no switch, and with the heater read as enabled,
  \<^verbatim>\<open>_ramp_to\<close> returns with exactly that transcript. With the heater read as not
  enabled it returns once a poll reads a state other than heating switch, and the
  ramp start comes after that poll; as long as every poll reads heating switch it
  has written pause, target and heater-on and is still polling, so the ramp start is
  never sent before the heater wait has ended. A call that returned has one of these
  three transcripts, has written exactly the expected commands, and \<^verbatim>\<open>_set_field\<close>
  is that call followed by the ramp monitor; a call of either operation that has not
  returned has written a prefix of the expected commands.
\<close>

theorem ramp_start_sequence:
  assumes "fst (can_start_ramping cfg hw h) = Inr True"
  shows "let target_cmd = ''CONF:FIELD:TARG '' @ fmt target;
             h2 = snd (can_start_ramping cfg hw h) @ [Write ''PAUSE'', Write target_cmd];
             h3 = h2 @ [Ask ''PS?'' ''0'', Write ''PS 1'', Sleep 500];
             expected = writes h @ [''PAUSE'', target_cmd] @
               (if persistent_switch cfg \<and> hw h2 ''PS?'' = ''0'' then [''PS 1''] else []) @
               [''RAMP'']
         in (\<not> persistent_switch cfg \<longrightarrow>
               ramp_to fuel fmt cfg hw target h = (Inr (), h2 @ [Write ''RAMP''])) \<and>
            (persistent_switch cfg \<and> hw h2 ''PS?'' = ''1'' \<longrightarrow>
               ramp_to fuel fmt cfg hw target h =
                 (Inr (), h2 @ [Ask ''PS?'' ''1'', Write ''RAMP''])) \<and>
            (persistent_switch cfg \<and> hw h2 ''PS?'' = ''0'' \<longrightarrow>
               (\<forall>k s. (\<forall>j<k. poll_reply hw HeatingSwitch h3 j = reply_of_state HeatingSwitch) \<and>
                      poll_reply hw HeatingSwitch h3 k = reply_of_state s \<and>
                      s \<noteq> HeatingSwitch \<and> k < fuel \<longrightarrow>
                  ramp_to fuel fmt cfg hw target h =
                    (Inr (), h3 @ polls k HeatingSwitch @
                       [Ask ''STATE?'' (reply_of_state s), Write ''RAMP''])) \<and>
               ((\<forall>k. poll_reply hw HeatingSwitch h3 k = reply_of_state HeatingSwitch) \<longrightarrow>
                  ramp_to fuel fmt cfg hw target h =
                    (Inl OutOfFuel, h3 @ polls fuel HeatingSwitch))) \<and>
            (fst (ramp_to fuel fmt cfg hw target h) = Inr () \<longrightarrow>
               writes (snd (ramp_to fuel fmt cfg hw target h)) = expected \<and>
               set_field fuel fmt cfg hw target h =
                 ramp_monitor fuel hw (snd (ramp_to fuel fmt cfg hw target h)) \<and>
               (snd (ramp_to fuel fmt cfg hw target h) = h2 @ [Write ''RAMP''] \<or>
                snd (ramp_to fuel fmt cfg hw target h) =
                  h2 @ [Ask ''PS?'' ''1'', Write ''RAMP''] \<or>
                (\<exists>rs r s. snd (ramp_to fuel fmt cfg hw target h) =
                     h3 @ polled rs @ [Ask ''STATE?'' r, Write ''RAMP''] \<and>
                   list_all (\<lambda>x. state_of_reply x = Some HeatingSwitch) rs \<and>
                   state_of_reply r = Some s \<and> s \<noteq> HeatingSwitch))) \<and>
            (fst (ramp_to fuel fmt cfg hw target h) \<noteq> Inr () \<longrightarrow>
               set_field fuel fmt cfg hw target h = ramp_to fuel fmt cfg hw target h) \<and>
            prefix (writes (snd (ramp_to fuel fmt cfg hw target h))) expected \<and>
            prefix (writes (snd (set_field fuel fmt cfg hw target h))) (expected @ [''PAUSE'']) \<and>
            (fst (set_field fuel fmt cfg hw target h) = Inr () \<longrightarrow>
               prefix expected (writes (snd (set_field fuel fmt cfg hw target h))))"
proof -
  obtain g where g: "can_start_ramping cfg hw h = (Inr True, g)"
    using assms by (cases "can_start_ramping cfg hw h") simp
  define target_cmd where "target_cmd = ''CONF:FIELD:TARG '' @ fmt target"
  define h2 where "h2 = snd (can_start_ramping cfg hw h) @ [Write ''PAUSE'', Write target_cmd]"
  define h3 where "h3 = h2 @ [Ask ''PS?'' ''0'', Write ''PS 1'', Sleep 500]"
  define expected where "expected = writes h @ [''PAUSE'', target_cmd] @
      (if persistent_switch cfg \<and> hw h2 ''PS?'' = ''0'' then [''PS 1''] else []) @ [''RAMP'']"
  note defs = target_cmd_def h2_def h3_def expected_def
  have c1: "ramp_to fuel fmt cfg hw target h = (Inr (), h2 @ [Write ''RAMP''])"
    if "\<not> persistent_switch cfg"
    using that by (simp add: ramp_to_open [OF g] Let_def defs g)
  have c2: "ramp_to fuel fmt cfg hw target h = (Inr (), h2 @ [Ask ''PS?'' ''1'', Write ''RAMP''])"
    if "persistent_switch cfg \<and> hw h2 ''PS?'' = ''1''"
    using that by (simp add: ramp_to_open [OF g] Let_def defs g)
  have cold: "ramp_to fuel fmt cfg hw target h =
    (case wait_while fuel hw HeatingSwitch h3 of
       (Inl e, h4) \<Rightarrow> (Inl e, h4)
     | (Inr u, h4) \<Rightarrow> (Inr (), h4 @ [Write ''RAMP'']))"
    if "persistent_switch cfg \<and> hw h2 ''PS?'' = ''0''"
    using that ramp_to_cold [OF g, of fmt target fuel] by (simp add: defs g)
  have c3: "ramp_to fuel fmt cfg hw target h =
      (Inr (), h3 @ polls k HeatingSwitch @ [Ask ''STATE?'' (reply_of_state s), Write ''RAMP''])"
    if c: "persistent_switch cfg \<and> hw h2 ''PS?'' = ''0''"
      and p: "(\<forall>j<k. poll_reply hw HeatingSwitch h3 j = reply_of_state HeatingSwitch) \<and>
        poll_reply hw HeatingSwitch h3 k = reply_of_state s \<and> s \<noteq> HeatingSwitch \<and> k < fuel"
    for k s
  proof -
    from p have ne: "poll_reply hw HeatingSwitch h3 k \<noteq> reply_of_state HeatingSwitch"
      using state_of_reply_iff [of "reply_of_state s" HeatingSwitch]
      by (auto simp: state_of_reply_of_state)
    have "wait_while fuel hw HeatingSwitch h3 =
       ((case state_of_reply (poll_reply hw HeatingSwitch h3 k) of
           None \<Rightarrow> Inl (KeyError (poll_reply hw HeatingSwitch h3 k)) | Some s \<Rightarrow> Inr ()),
        h3 @ polls k HeatingSwitch @ [Ask ''STATE?'' (poll_reply hw HeatingSwitch h3 k)])"
      using p ne by (intro wait_while_exits) auto
    with p show ?thesis by (simp add: cold [OF c] state_of_reply_of_state)
  qed
  have c4: "ramp_to fuel fmt cfg hw target h = (Inl OutOfFuel, h3 @ polls fuel HeatingSwitch)"
    if c: "persistent_switch cfg \<and> hw h2 ''PS?'' = ''0''"
      and p: "\<forall>k. poll_reply hw HeatingSwitch h3 k = reply_of_state HeatingSwitch"
    using p by (simp add: cold [OF c] wait_while_stuck)
  have old: "prefix (writes (snd (ramp_to fuel fmt cfg hw target h))) expected \<and>
      (fst (ramp_to fuel fmt cfg hw target h) = Inr () \<longrightarrow>
         writes (snd (ramp_to fuel fmt cfg hw target h)) = expected) \<and>
      prefix (writes (snd (set_field fuel fmt cfg hw target h))) (expected @ [''PAUSE'']) \<and>
      (fst (set_field fuel fmt cfg hw target h) = Inr () \<longrightarrow>
         prefix expected (writes (snd (set_field fuel fmt cfg hw target h))))"
    unfolding defs
    using ramp_writes_in_order [OF assms, of fmt target fuel, unfolded Let_def] by blast
  have sf: "set_field fuel fmt cfg hw target h =
      ramp_monitor fuel hw (snd (ramp_to fuel fmt cfg hw target h))"
    if "fst (ramp_to fuel fmt cfg hw target h) = Inr ()"
    using that assms
    by (cases "ramp_to fuel fmt cfg hw target h") (simp add: set_field_after_ramp_to)
  have sf': "set_field fuel fmt cfg hw target h = ramp_to fuel fmt cfg hw target h"
    if "fst (ramp_to fuel fmt cfg hw target h) \<noteq> Inr ()"
    using that
    by (cases "ramp_to fuel fmt cfg hw target h")
      (auto simp add: set_field_after_ramp_to split: sum.splits)
  have sh: "snd (ramp_to fuel fmt cfg hw target h) = h2 @ [Write ''RAMP''] \<or>
      snd (ramp_to fuel fmt cfg hw target h) = h2 @ [Ask ''PS?'' ''1'', Write ''RAMP''] \<or>
      (\<exists>rs r s. snd (ramp_to fuel fmt cfg hw target h) =
           h3 @ polled rs @ [Ask ''STATE?'' r, Write ''RAMP''] \<and>
         list_all (\<lambda>x. state_of_reply x = Some HeatingSwitch) rs \<and>
         state_of_reply r = Some s \<and> s \<noteq> HeatingSwitch)"
    if "fst (ramp_to fuel fmt cfg hw target h) = Inr ()"
    using ramp_to_shapes [OF g that] by (simp add: defs g)
  from c1 c2 c3 c4 old sf sf' sh show ?thesis
    unfolding Let_def target_cmd_def [symmetric] h2_def [symmetric] h3_def [symmetric]
      expected_def [symmetric]
    by blast
qed

lemma asks_polls: "asks (polls k st) = replicate k ''STATE?''"
  by (induction k) simp_all

lemma scenario_B_gate:
  "can_start_ramping magnet
     (scripted holding_cold [Holding, HeatingSwitch, Holding, Ramping, Ramping]) [] =
     (Inr True, [Ask ''QU?'' ''0'', Ask ''PERS?'' ''0'', Ask ''STATE?'' ''2''])"
  by (simp add: run_defs fixture_defs)

lemma stuck_gate:
  "can_start_ramping magnet (scripted stuck_heating [Holding]) [] =
     (Inr True, [Ask ''QU?'' ''0'', Ask ''PERS?'' ''0'', Ask ''STATE?'' ''2''])"
  by (simp add: run_defs fixture_defs stuck_heating_def)

lemma stuck_after_gate:
  "poll_reply (scripted stuck_heating [Holding]) HeatingSwitch
     [Ask ''QU?'' ''0'', Ask ''PERS?'' ''0'', Ask ''STATE?'' ''2'', Write ''PAUSE'',
      Write ''CONF:FIELD:TARG 0.4'', Ask ''PS?'' ''0'', Write ''PS 1'', Sleep 500] k = ''9''"
  by (simp add: poll_reply_def scripted_def asks_append asks_polls stuck_heating_def)

lemma bare_holding_gate:
  "can_start_ramping bare_magnet (scripted holding_cold []) [] =
     (Inr True, [Ask ''QU?'' ''0'', Ask ''STATE?'' ''2''])"
  by (simp add: run_defs fixture_defs)

lemma fmt_target: "fmt_tenths (2 / 5) = ''0.4''"
  by (simp add: fixture_defs)

theorem ramp_start_sequence_witness:
  "fst (can_start_ramping magnet
     (scripted holding_cold [Holding, HeatingSwitch, Holding, Ramping, Ramping]) []) = Inr True \<and>
   ramp_to 3 fmt_tenths magnet
     (scripted holding_cold [Holding, HeatingSwitch, Holding, Ramping, Ramping]) (2 / 5) [] =
     (Inr (), [Ask ''QU?'' ''0'', Ask ''PERS?'' ''0'', Ask ''STATE?'' ''2'',
       Write ''PAUSE'', Write ''CONF:FIELD:TARG 0.4'', Ask ''PS?'' ''0'', Write ''PS 1'', Sleep 500,
       Ask ''STATE?'' ''9'', Sleep 300, Ask ''STATE?'' ''2'', Write ''RAMP'']) \<and>
   (\<forall>fuel. ramp_to fuel fmt_tenths magnet (scripted stuck_heating [Holding]) (2 / 5) [] =
     (Inl OutOfFuel, [Ask ''QU?'' ''0'', Ask ''PERS?'' ''0'', Ask ''STATE?'' ''2'',
       Write ''PAUSE'', Write ''CONF:FIELD:TARG 0.4'', Ask ''PS?'' ''0'', Write ''PS 1'', Sleep 500] @
       polls fuel HeatingSwitch)) \<and>
   ramp_to 3 fmt_tenths bare_magnet (scripted holding_cold []) (2 / 5) [] =
     (Inr (), [Ask ''QU?'' ''0'', Ask ''STATE?'' ''2'', Write ''PAUSE'',
       Write ''CONF:FIELD:TARG 0.4'', Write ''RAMP''])"
proof (intro conjI allI)
  let ?hw = "scripted holding_cold [Holding, HeatingSwitch, Holding, Ramping, Ramping]"
  show g: "fst (can_start_ramping magnet ?hw []) = Inr True"
    by (simp add: scenario_B_gate)
  note t = ramp_start_sequence [OF g, where fuel = 3 and fmt = fmt_tenths and target = "2 / 5",
      unfolded Let_def]
  have c: "persistent_switch magnet \<and>
      ?hw (snd (can_start_ramping magnet ?hw []) @
        [Write ''PAUSE'', Write (''CONF:FIELD:TARG '' @ fmt_tenths (2 / 5))]) ''PS?'' = ''0''"
    by (simp only: scenario_B_gate snd_conv) (simp add: fixture_defs)
  from t [THEN conjunct2, THEN conjunct2, THEN conjunct1, rule_format, OF c, THEN conjunct1,
      rule_format, of "Suc 0" Holding]
  show "ramp_to 3 fmt_tenths magnet ?hw (2 / 5) [] =
     (Inr (), [Ask ''QU?'' ''0'', Ask ''PERS?'' ''0'', Ask ''STATE?'' ''2'',
       Write ''PAUSE'', Write ''CONF:FIELD:TARG 0.4'', Ask ''PS?'' ''0'', Write ''PS 1'', Sleep 500,
       Ask ''STATE?'' ''9'', Sleep 300, Ask ''STATE?'' ''2'', Write ''RAMP''])"
    by (simp only: scenario_B_gate snd_conv fmt_target)
      (simp add: poll_reply_def scripted_def holding_cold_def)
next
  fix fuel
  let ?hw = "scripted stuck_heating [Holding]"
  have g: "fst (can_start_ramping magnet ?hw []) = Inr True"
    by (simp add: stuck_gate)
  note t = ramp_start_sequence [OF g, where fuel = fuel and fmt = fmt_tenths and target = "2 / 5",
      unfolded Let_def]
  have c: "persistent_switch magnet \<and>
      ?hw (snd (can_start_ramping magnet ?hw []) @
        [Write ''PAUSE'', Write (''CONF:FIELD:TARG '' @ fmt_tenths (2 / 5))]) ''PS?'' = ''0''"
    by (simp only: stuck_gate snd_conv) (simp add: fixture_defs stuck_heating_def)
  from t [THEN conjunct2, THEN conjunct2, THEN conjunct1, rule_format, OF c, THEN conjunct2]
  show "ramp_to fuel fmt_tenths magnet ?hw (2 / 5) [] =
     (Inl OutOfFuel, [Ask ''QU?'' ''0'', Ask ''PERS?'' ''0'', Ask ''STATE?'' ''2'',
       Write ''PAUSE'', Write ''CONF:FIELD:TARG 0.4'', Ask ''PS?'' ''0'', Write ''PS 1'', Sleep 500] @
       polls fuel HeatingSwitch)"
    by (simp only: stuck_gate snd_conv fmt_target) (simp add: stuck_after_gate)
next
  let ?hw = "scripted holding_cold []"
  have g: "fst (can_start_ramping bare_magnet ?hw []) = Inr True"
    by (simp add: bare_holding_gate)
  from ramp_start_sequence [OF g, where fuel = 3 and fmt = fmt_tenths and target = "2 / 5",
      unfolded Let_def, THEN conjunct1]
  show "ramp_to 3 fmt_tenths bare_magnet ?hw (2 / 5) [] =
     (Inr (), [Ask ''QU?'' ''0'', Ask ''STATE?'' ''2'', Write ''PAUSE'',
       Write ''CONF:FIELD:TARG 0.4'', Write ''RAMP''])"
    by (simp only: bare_holding_gate snd_conv fmt_target) (simp add: bare_magnet_def magnet_def)
qed

end
